theory Spec2Isabelle
  imports Main
begin

section \<open>Tokens, values and parser state\<close>

text \<open>
  \<^verbatim>\<open>TokenType\<close> is an \<^verbatim>\<open>AutoName\<close> enumeration (helper.py): the value of a member is its
  name.  A token type is therefore modelled by that name, \<^verbatim>\<open>TokenType.SELECT\<close> by
  \<open>''SELECT''\<close>.  An expression class is modelled by its class name, \<^verbatim>\<open>exp.Hint\<close> by
  \<open>''Hint''\<close>.
\<close>

type_synonym token_type = string

record token =
  token_type :: token_type
  token_text :: string
  token_line :: nat
  token_col :: nat

text \<open>
  Modelled from the spec: the constructor of \<^verbatim>\<open>Token\<close> (tokens.py is not part of the
  sources at hand).  Positions are 1-based and default to line 1, column 1;
  \<^verbatim>\<open>Token.string(text)\<close> builds a \<^verbatim>\<open>STRING\<close> token.
\<close>

definition Token :: "token_type \<Rightarrow> string \<Rightarrow> token" where
  "Token tt txt = \<lparr>token_type = tt, token_text = txt, token_line = 1, token_col = 1\<rparr>"

definition Token_string :: "string \<Rightarrow> token" where
  "Token_string txt = Token ''STRING'' txt"

text \<open>
  The Python values that flow through the parser: \<^verbatim>\<open>None\<close>, booleans, strings, tokens,
  members of \<^verbatim>\<open>DataType.Type\<close>, lists, and expression nodes.  A node carries its class
  name and its \<^verbatim>\<open>args\<close> dictionary, kept as an association list in insertion order.
\<close>

datatype pyval =
    PNone
  | PBool bool
  | PStr string
  | PTok token
  | PEnum string
  | PList "pyval list"
  | Expression string "(string \<times> pyval) list"

text \<open>Python truthiness (\<^verbatim>\<open>not v\<close>, \<^verbatim>\<open>a and b\<close>, \<^verbatim>\<open>a or b\<close>, \<^verbatim>\<open>bool(v)\<close>).\<close>

fun truthy :: "pyval \<Rightarrow> bool" where
  "truthy PNone = False"
| "truthy (PBool b) = b"
| "truthy (PStr s) = (s \<noteq> [])"
| "truthy (PTok t) = True"
| "truthy (PEnum e) = True"
| "truthy (PList vs) = (vs \<noteq> [])"
| "truthy (Expression c a) = True"

datatype ErrorLevel = RAISE | WARN | IGNORE

datatype exn =
    ParseError string
  | UnboundLocalError string
  | AttributeError string
  | KeyError string
  | IndexError
  | OutOfFuel

text \<open>
  The attributes of a \<^verbatim>\<open>Parser\<close> instance that \<^verbatim>\<open>reset\<close> re-initialises, and the lines
  handed to \<^verbatim>\<open>logging.error\<close>.
\<close>

record parser_state =
  p_code :: string
  p_error :: "string option"
  p_tokens :: "token list"
  p_chunks :: "token list list"
  p_index :: int
  p_curr :: "token option"
  p_next :: "token option"
  p_prev :: "token option"
  p_log :: "string list"

text \<open>
  The attributes fixed by \<^verbatim>\<open>__init__\<close>, together with the two class attributes of
  expressions.py the parser reads from a node: \<^verbatim>\<open>arg_types\<close> (slot name to mandatory flag,
  in declaration order) and \<^verbatim>\<open>is_var_len_args\<close>.  expressions.py is not part of the
  sources at hand, so both tables are parameters.  The last parameter is Python's
  \<^verbatim>\<open>str.upper\<close>, which the parser applies to the name of a function: it acts on Unicode
  text and may change its length, and a string here is a list of bytes.
\<close>

record config =
  c_functions :: "string \<Rightarrow> (pyval list \<Rightarrow> pyval) option"
  c_error_level :: ErrorLevel
  c_error_message_context :: nat
  c_arg_types :: "string \<Rightarrow> (string \<times> bool) list"
  c_is_var_len_args :: "string \<Rightarrow> bool"
  c_upper :: "string \<Rightarrow> string"

definition reset :: "parser_state \<Rightarrow> parser_state" where
  "reset s = s\<lparr>p_code := [], p_error := None, p_tokens := [], p_chunks := [[]],
               p_index := 0, p_curr := None, p_next := None, p_prev := None\<rparr>"

section \<open>State and exceptions\<close>

text \<open>
  A method of the parser is a function from the state to an outcome and the state it
  leaves: \<open>Inr v\<close> when it returns \<open>v\<close>, \<open>Inl e\<close> when it raises \<open>e\<close>.
\<close>

type_synonym 'a M = "parser_state \<Rightarrow> (exn + 'a) \<times> parser_state"

definition ret :: "'a \<Rightarrow> 'a M" where
  "ret v s = (Inr v, s)"

definition throw :: "exn \<Rightarrow> 'a M" where
  "throw e s = (Inl e, s)"

definition bnd :: "'a M \<Rightarrow> ('a \<Rightarrow> 'b M) \<Rightarrow> 'b M" where
  "bnd m f s = (case m s of (Inl e, s') \<Rightarrow> (Inl e, s') | (Inr v, s') \<Rightarrow> f v s')"

primrec for_each :: "'a list \<Rightarrow> ('a \<Rightarrow> unit M) \<Rightarrow> unit M" where
  "for_each [] f s = ret () s"
| "for_each (x # xs) f s = bnd (f x) (\<lambda>_. for_each xs f) s"

section \<open>Helpers\<close>

text \<open>
  \<^verbatim>\<open>list_get(arr, index)\<close> is \<^verbatim>\<open>arr[index] if index < len(arr) else None\<close>; a negative index
  counts from the end and raises \<^verbatim>\<open>IndexError\<close> beyond the first element.
\<close>

definition list_get :: "'a list \<Rightarrow> int \<Rightarrow> exn + 'a option" where
  "list_get arr i =
     (if i < int (length arr) then
        (if 0 \<le> i then Inr (Some (arr ! nat i))
         else if - i \<le> int (length arr) then Inr (Some (arr ! nat (int (length arr) + i)))
         else Inl IndexError)
      else Inr None)"

fun str_of_nat :: "nat \<Rightarrow> string" where
  "str_of_nat n =
     (if n < 10 then [''0123456789'' ! n]
      else str_of_nat (n div 10) @ [''0123456789'' ! (n mod 10)])"

declare str_of_nat.simps [simp del]

text \<open>
  \<^verbatim>\<open>str.upper\<close> on ASCII text: the letters \<^verbatim>\<open>a\<close> to \<^verbatim>\<open>z\<close> become \<^verbatim>\<open>A\<close> to \<^verbatim>\<open>Z\<close>
  and every other character stays.  It stands for \<^verbatim>\<open>str.upper\<close> in the scenarios only.
\<close>

definition upper_char :: "char \<Rightarrow> char" where
  "upper_char c =
     (let n = (of_char c :: nat) in if 97 \<le> n \<and> n \<le> 122 then char_of (n - 32) else c)"

definition upper :: "string \<Rightarrow> string" where
  "upper s = map upper_char s"

definition quoted :: "string \<Rightarrow> string" where
  "quoted k = [CHR 0x27] @ k @ [CHR 0x27]"

definition class_repr :: "string \<Rightarrow> string" where
  "class_repr c = ''<class '' @ [CHR 0x27] @ ''sqlglot.expressions.'' @ c @ [CHR 0x27] @ ''>''"

section \<open>Token classes of the parser\<close>

definition TYPE_TOKENS :: "token_type list" where
  "TYPE_TOKENS =
     [''BOOLEAN'', ''TINYINT'', ''SMALLINT'', ''INT'', ''BIGINT'', ''FLOAT'', ''DOUBLE'',
      ''CHAR'', ''VARCHAR'', ''TEXT'', ''BINARY'', ''JSON'', ''TIMESTAMP'', ''TIMESTAMPTZ'',
      ''DATE'', ''ARRAY'', ''DECIMAL'', ''MAP'']"

definition AMBIGUOUS_TOKEN_TYPES :: "token_type list" where
  "AMBIGUOUS_TOKEN_TYPES = [''ARRAY'', ''DATE'', ''MAP'']"

definition ID_VAR_TOKENS :: "token_type list" where
  "ID_VAR_TOKENS =
     [''IDENTIFIER'', ''VAR'', ''ALL'', ''ASC'', ''COLLATE'', ''COUNT'', ''DEFAULT'', ''DESC'',
      ''ENGINE'', ''FOLLOWING'', ''FORMAT'', ''IF'', ''INTERVAL'', ''ORDINALITY'', ''OVER'',
      ''PRECEDING'', ''RANGE'', ''ROWS'', ''SCHEMA_COMMENT'', ''UNBOUNDED''] @ TYPE_TOKENS"

definition PRIMARY_TOKENS :: "token_type list" where
  "PRIMARY_TOKENS = [''STRING'', ''NUMBER'', ''STAR'', ''NULL'']"

definition COLUMN_TOKENS :: "token_type list" where
  "COLUMN_TOKENS = filter (\<lambda>t. t \<noteq> ''ARRAY'') (ID_VAR_TOKENS @ [''STAR''])"

definition NON_COLUMN_TOKENS :: "token_type list" where
  "NON_COLUMN_TOKENS = [''COMMA'', ''R_PAREN'', ''WHEN'']"

definition CONJUNCTION :: "(token_type \<times> string) list" where
  "CONJUNCTION = [(''AND'', ''And''), (''OR'', ''Or'')]"

definition EQUALITY :: "(token_type \<times> string) list" where
  "EQUALITY = [(''EQ'', ''EQ''), (''NEQ'', ''NEQ''), (''IS'', ''Is'')]"

definition COMPARISON :: "(token_type \<times> string) list" where
  "COMPARISON = [(''GT'', ''GT''), (''GTE'', ''GTE''), (''LT'', ''LT''), (''LTE'', ''LTE'')]"

definition BITWISE :: "(token_type \<times> string) list" where
  "BITWISE =
     [(''LSHIFT'', ''BitwiseLeftShift''), (''RSHIFT'', ''BitwiseRightShift''),
      (''AMP'', ''BitwiseAnd''), (''CARET'', ''BitwiseXor''), (''PIPE'', ''BitwiseOr''),
      (''DPIPE'', ''DPipe'')]"

definition TERM_tbl :: "(token_type \<times> string) list" where
  "TERM_tbl = [(''DASH'', ''Minus''), (''PLUS'', ''Plus''), (''MOD'', ''Mod'')]"

definition FACTOR :: "(token_type \<times> string) list" where
  "FACTOR = [(''DIV'', ''IntDiv''), (''SLASH'', ''Div''), (''STAR'', ''Mul'')]"

text \<open>
  Modelled from the spec: the node constructors that \<^verbatim>\<open>TOKEN_TO_EXPRESSION\<close> calls
  (\<^verbatim>\<open>Literal.string\<close>, \<^verbatim>\<open>Literal.number\<close>, \<^verbatim>\<open>DataType.Type[...]\<close> of expressions.py),
  which give a string or number literal holding the token's text, and the type named by
  the token type.  The table itself is the one of parser.py.
\<close>

definition TOKEN_TO_EXPRESSION :: "token_type \<Rightarrow> (token \<Rightarrow> pyval) option" where
  "TOKEN_TO_EXPRESSION tt =
     (if tt = ''STAR'' then Some (\<lambda>t. Expression ''Star'' [])
      else if tt = ''NULL'' then Some (\<lambda>t. Expression ''Null'' [])
      else if tt = ''STRING'' then
        Some (\<lambda>t. Expression ''Literal'' [(''this'', PStr (token_text t)), (''is_string'', PBool True)])
      else if tt = ''NUMBER'' then
        Some (\<lambda>t. Expression ''Literal'' [(''this'', PStr (token_text t)), (''is_string'', PBool False)])
      else if tt = ''IDENTIFIER'' then
        Some (\<lambda>t. Expression ''Identifier'' [(''this'', PStr (token_text t)), (''quoted'', PBool True)])
      else if tt = ''VAR'' then
        Some (\<lambda>t. Expression ''Identifier'' [(''this'', PStr (token_text t)), (''quoted'', PBool False)])
      else if tt \<in> set TYPE_TOKENS then
        Some (\<lambda>t. Expression ''DataType'' [(''this'', PEnum (token_type t))])
      else None)"

definition ensure_non_token :: "pyval \<Rightarrow> pyval" where
  "ensure_non_token v =
     (case v of
        PTok t \<Rightarrow>
          (case TOKEN_TO_EXPRESSION (token_type t) of
             Some transformer \<Rightarrow> transformer t
           | None \<Rightarrow> PStr (token_text t))
      | _ \<Rightarrow> v)"

section \<open>Error reporter\<close>

text \<open>
  \<^verbatim>\<open>_find_token\<close>: the loop reads \<^verbatim>\<open>code[index]\<close> and raises \<^verbatim>\<open>IndexError\<close> when the
  position of the token lies beyond the text; \<open>rest\<close> is \<^verbatim>\<open>code[index:]\<close>.
\<close>

fun find_token_loop :: "nat \<Rightarrow> nat \<Rightarrow> nat \<Rightarrow> nat \<Rightarrow> nat \<Rightarrow> string \<Rightarrow> exn + nat" where
  "find_token_loop tline tcol ln cl idx rest =
     (if ln < tline \<or> cl < tcol then
        (case rest of
           [] \<Rightarrow> Inl IndexError
         | c # cs \<Rightarrow>
             if c = CHR 0x0A then find_token_loop tline tcol (ln + 1) 1 (idx + 1) cs
             else find_token_loop tline tcol ln (cl + 1) (idx + 1) cs)
      else Inr idx)"

declare find_token_loop.simps [simp del]

definition find_token :: "token \<Rightarrow> string \<Rightarrow> exn + nat" where
  "find_token t code = find_token_loop (token_line t) (token_col t) 1 1 0 code"

definition render_error :: "nat \<Rightarrow> string \<Rightarrow> token \<Rightarrow> string \<Rightarrow> nat \<Rightarrow> string" where
  "render_error ctx message t code start =
     (let end_idx = start + length (token_text t);
          start_context = take (start - (start - ctx)) (drop (start - ctx) code);
          highlight = take (end_idx - start) (drop start code);
          end_context = take ctx (drop end_idx code)
      in message @ ''. Line '' @ str_of_nat (token_line t) @ '', Col: '' @ str_of_nat (token_col t)
           @ ''.'' @ [CHR 0x0A] @ start_context @ [CHR 0x1B] @ ''[4m'' @ highlight
           @ [CHR 0x1B] @ ''[0m'' @ end_context)"

definition raise_error :: "config \<Rightarrow> string \<Rightarrow> token option \<Rightarrow> unit M" where
  "raise_error cfg message tok s =
     (let t = (case tok of Some t \<Rightarrow> t | None \<Rightarrow>
                (case p_curr s of Some t \<Rightarrow> t | None \<Rightarrow>
                  (case p_prev s of Some t \<Rightarrow> t | None \<Rightarrow> Token_string [])))
      in case find_token t (p_code s) of
           Inl e \<Rightarrow> (Inl e, s)
         | Inr start \<Rightarrow>
             (let err = render_error (c_error_message_context cfg) message t (p_code s) start;
                  s' = s\<lparr>p_error := Some err\<rparr>
              in if c_error_level cfg = RAISE then (Inl (ParseError err), s')
                 else if c_error_level cfg = WARN then (Inr (), s'\<lparr>p_log := p_log s' @ [err]\<rparr>)
                 else (Inr (), s')))"

section \<open>Node factory and validator\<close>

definition is_empty_slot :: "pyval option \<Rightarrow> bool" where
  "is_empty_slot v = (v = None \<or> v = Some PNone \<or> v = Some (PList []))"

definition validate_expression :: "config \<Rightarrow> pyval \<Rightarrow> unit M" where
  "validate_expression cfg e s =
     (if c_error_level cfg = IGNORE then ret ()
      else case e of
        Expression cls args \<Rightarrow>
          bnd (for_each (map fst args) (\<lambda>k.
                 if k \<notin> set (map fst (c_arg_types cfg cls)) then
                   raise_error cfg
                     (''Unexpected keyword: '' @ quoted k @ '' for '' @ class_repr cls) None
                 else ret ()))
              (\<lambda>_. for_each (c_arg_types cfg cls) (\<lambda>(k, mandatory).
                 if mandatory \<and> is_empty_slot (map_of args k) then
                   raise_error cfg
                     (''Required keyword: '' @ quoted k @ '' missing for '' @ class_repr cls) None
                 else ret ()))
      | _ \<Rightarrow> throw (AttributeError ''args'')) s"

definition expression :: "config \<Rightarrow> string \<Rightarrow> (string \<times> pyval) list \<Rightarrow> pyval M" where
  "expression cfg exp_class kwargs s =
     (let kw = map (\<lambda>(k, arg). (k, case arg of
                                      PList vs \<Rightarrow> PList (map ensure_non_token vs)
                                    | _ \<Rightarrow> ensure_non_token arg)) kwargs;
          instance = Expression exp_class kw
      in bnd (validate_expression cfg instance) (\<lambda>_. ret instance) s)"

section \<open>Token view\<close>

definition lift :: "(exn + 'a) \<Rightarrow> 'a M" where
  "lift r s = (r, s)"

definition advance :: "unit M" where
  "advance s =
     (let i = p_index s + 1; s1 = s\<lparr>p_index := i\<rparr> in
      bnd (lift (list_get (p_tokens s1) i)) (\<lambda>c s2.
      bnd (lift (list_get (p_tokens s1) (i + 1))) (\<lambda>n s3.
      if i > 0 then
        bnd (lift (list_get (p_tokens s1) (i - 1))) (\<lambda>p s4.
          (Inr (), s4\<lparr>p_prev := p\<rparr>)) (s3\<lparr>p_next := n\<rparr>)
      else (Inr (), s3\<lparr>p_next := n, p_prev := None\<rparr>)) (s2\<lparr>p_curr := c\<rparr>)) s1)"

definition opt_val :: "token option \<Rightarrow> pyval" where
  "opt_val t = (case t of None \<Rightarrow> PNone | Some t \<Rightarrow> PTok t)"

definition match :: "token_type list \<Rightarrow> pyval M" where
  "match types s =
     (case p_curr s of
        None \<Rightarrow> (Inr PNone, s)
      | Some c \<Rightarrow>
          if token_type c \<in> set types then bnd advance (\<lambda>_ s'. (Inr (opt_val (p_prev s')), s')) s
          else (Inr PNone, s))"

section \<open>Python expressions over values\<close>

definition andM :: "pyval M \<Rightarrow> pyval M \<Rightarrow> pyval M" where
  "andM a b s = bnd a (\<lambda>v. if truthy v then b else ret v) s"

definition orM :: "pyval M \<Rightarrow> pyval M \<Rightarrow> pyval M" where
  "orM a b s = bnd a (\<lambda>v. if truthy v then ret v else b) s"

definition ifM :: "pyval M \<Rightarrow> 'a M \<Rightarrow> 'a M \<Rightarrow> 'a M" where
  "ifM c a b s = bnd c (\<lambda>v. if truthy v then a else b) s"

definition unlessM :: "pyval M \<Rightarrow> unit M \<Rightarrow> unit M" where
  "unlessM c a s = bnd c (\<lambda>v. if truthy v then ret () else a) s"

definition get_curr :: "token option M" where
  "get_curr s = (Inr (p_curr s), s)"

definition get_next :: "token option M" where
  "get_next s = (Inr (p_next s), s)"

definition get_prev :: "token option M" where
  "get_prev s = (Inr (p_prev s), s)"

definition get_index :: "int M" where
  "get_index s = (Inr (p_index s), s)"

definition get_tokens :: "token list M" where
  "get_tokens s = (Inr (p_tokens s), s)"

text \<open>\<^verbatim>\<open>self._index = -1; self._tokens = tokens\<close> at the head of the loop over chunks.\<close>

definition start_tokens :: "token list \<Rightarrow> unit M" where
  "start_tokens tokens s = (Inr (), s\<lparr>p_index := - 1, p_tokens := tokens\<rparr>)"

text \<open>Attribute reads \<^verbatim>\<open>v.token_type\<close> and \<^verbatim>\<open>v.text\<close>: only a token has them.\<close>

definition token_type_of :: "pyval \<Rightarrow> exn + token_type" where
  "token_type_of v = (case v of PTok t \<Rightarrow> Inr (token_type t) | _ \<Rightarrow> Inl (AttributeError ''token_type''))"

definition text_of :: "pyval \<Rightarrow> exn + string" where
  "text_of v = (case v of PTok t \<Rightarrow> Inr (token_text t) | _ \<Rightarrow> Inl (AttributeError ''text''))"

definition is_token_of :: "pyval \<Rightarrow> token_type list \<Rightarrow> bool" where
  "is_token_of v types = (case v of PTok t \<Rightarrow> token_type t \<in> set types | _ \<Rightarrow> False)"

text \<open>
  \<^verbatim>\<open>isinstance(v, classes)\<close> for expression classes.  The class hierarchy is in
  expressions.py; a node is taken to be an instance of the classes named by its own class
  name only.
\<close>

definition isinstance :: "pyval \<Rightarrow> string list \<Rightarrow> bool" where
  "isinstance v classes = (case v of Expression c a \<Rightarrow> c \<in> set classes | _ \<Rightarrow> False)"

text \<open>Dictionaries with string keys, in insertion order.\<close>

primrec dict_set :: "(string \<times> pyval) list \<Rightarrow> string \<Rightarrow> pyval \<Rightarrow> (string \<times> pyval) list" where
  "dict_set [] k v = [(k, v)]"
| "dict_set (kv # d) k v = (if fst kv = k then (k, v) # d else kv # dict_set d k v)"

definition dict_get :: "(string \<times> pyval) list \<Rightarrow> string \<Rightarrow> exn + pyval" where
  "dict_get d k = (case map_of d k of Some v \<Rightarrow> Inr v | None \<Rightarrow> Inl (KeyError k))"

definition dict_pop :: "(string \<times> pyval) list \<Rightarrow> string \<Rightarrow> (string \<times> pyval) list" where
  "dict_pop d k = filter (\<lambda>kv. fst kv \<noteq> k) d"

section \<open>Grammar driver\<close>

text \<open>
  Every \<^verbatim>\<open>_parse_*\<close> method is one definition below.  A call of a method is a value of
  type \<open>call\<close>, and a definition reaches the methods it calls through its argument
  \<open>rec\<close>; \<open>run\<close> at the end ties the knot with a bound on the depth of calls.  A
  \<^verbatim>\<open>while\<close> loop is the call that runs the rest of its method from the head of the loop,
  with the local variables of the method as arguments.
\<close>

datatype (plugins only: code) call =
    Statement
  | Drop
  | Exists bool
  | Create
  | CreateLoop "(string \<times> pyval) list" "(string \<times> pyval) list"
  | Insert
  | Update
  | Values
  | Value
  | Cte
  | CteLoop "pyval list"
  | Select
  | Hint
  | From
  | Laterals
  | LateralsLoop "pyval list" "pyval option"
  | Joins
  | JoinsLoop "pyval list"
  | Table pyval bool
  | Unnest
  | Where
  | Group
  | Having
  | Order
  | Ordered
  | Limit
  | Union_call pyval
  | Expr
  | Conjunction
  | Equality
  | Comparison
  | Range_call
  | Bitwise
  | Term
  | Factor
  | Unary
  | Type
  | Types
  | ColumnDef pyval
  | ColumnDefLoop pyval pyval "(string \<times> pyval) list"
  | Primary
  | Column
  | ColumnLoop pyval pyval pyval pyval
  | Function pyval bool
  | Case
  | CaseLoop pyval "pyval list"
  | Count
  | Extract
  | Cast
  | Window pyval
  | WindowSpec
  | Brackets pyval
  | Dot pyval
  | Alias pyval
  | IdVar
  | Csv call
  | CsvLoop call "pyval list"
  | Tokens call "(token_type \<times> string) list"
  | TokensLoop call "(token_type \<times> string) list" pyval

type_synonym parser = "call \<Rightarrow> pyval M"

subsection \<open>Generic helpers\<close>

definition parse_id_var :: "pyval M" where
  "parse_id_var s = match ID_VAR_TOKENS s"

definition parse_csv_loop :: "parser \<Rightarrow> call \<Rightarrow> pyval list \<Rightarrow> pyval M" where
  "parse_csv_loop rec parse items s =
     ifM (match [''COMMA''])
       (bnd (rec parse) (\<lambda>parse_result.
          rec (CsvLoop parse (if parse_result \<noteq> PNone then items @ [parse_result] else items))))
       (ret (PList items)) s"

definition parse_csv :: "parser \<Rightarrow> call \<Rightarrow> pyval M" where
  "parse_csv rec parse s =
     bnd (rec parse) (\<lambda>parse_result.
       rec (CsvLoop parse (if parse_result \<noteq> PNone then [parse_result] else []))) s"

definition parse_tokens_loop ::
  "config \<Rightarrow> parser \<Rightarrow> call \<Rightarrow> (token_type \<times> string) list \<Rightarrow> pyval \<Rightarrow> pyval M" where
  "parse_tokens_loop cfg rec parse expressions this s =
     ifM (match (map fst expressions))
       (bnd get_prev (\<lambda>prev.
        bnd (lift (token_type_of (opt_val prev))) (\<lambda>tt.
        bnd (lift (case map_of expressions tt of Some c \<Rightarrow> Inr c | None \<Rightarrow> Inl (KeyError tt))) (\<lambda>cls.
        bnd (rec parse) (\<lambda>e.
        bnd (expression cfg cls [(''this'', this), (''expression'', e)]) (\<lambda>this'.
        rec (TokensLoop parse expressions this')))))))
       (ret this) s"

definition parse_tokens :: "parser \<Rightarrow> call \<Rightarrow> (token_type \<times> string) list \<Rightarrow> pyval M" where
  "parse_tokens rec parse expressions s =
     bnd (rec parse) (\<lambda>this. rec (TokensLoop parse expressions this)) s"

definition parse_alias :: "config \<Rightarrow> parser \<Rightarrow> pyval \<Rightarrow> pyval M" where
  "parse_alias cfg rec this s =
     bnd (match [''ALIAS'']) (\<lambda>_.
     bnd (rec IdVar) (\<lambda>alias.
       if truthy alias then expression cfg ''Alias'' [(''this'', this), (''alias'', alias)]
       else ret this)) s"

definition parse_dot :: "config \<Rightarrow> parser \<Rightarrow> pyval \<Rightarrow> pyval M" where
  "parse_dot cfg rec this s =
     ifM (match [''DOT''])
       (bnd (rec IdVar) (\<lambda>i.
        bnd (expression cfg ''Dot'' [(''this'', this), (''expression'', i)]) (\<lambda>this'.
        rec (Dot this'))))
       (ret this) s"

definition parse_brackets :: "config \<Rightarrow> parser \<Rightarrow> pyval \<Rightarrow> pyval M" where
  "parse_brackets cfg rec this s =
     ifM (match [''L_BRACKET''])
       (bnd (rec (Csv Conjunction)) (\<lambda>expressions.
        bnd (if is_token_of this [''ARRAY''] then
               expression cfg ''Array'' [(''expressions'', expressions)]
             else expression cfg ''Bracket'' [(''this'', this), (''expressions'', expressions)])
          (\<lambda>bracket.
        bnd (unlessM (match [''R_BRACKET'']) (raise_error cfg ''Expected ]'' None)) (\<lambda>_.
        bnd (rec (Dot bracket)) (\<lambda>d. rec (Brackets d))))))
       (ret this) s"

subsection \<open>Expressions and the precedence ladder\<close>

definition parse_expression :: "parser \<Rightarrow> pyval M" where
  "parse_expression rec s = bnd (rec Conjunction) (\<lambda>c. rec (Alias c)) s"

definition parse_conjunction :: "parser \<Rightarrow> pyval M" where
  "parse_conjunction rec s = rec (Tokens Equality CONJUNCTION) s"

definition parse_equality :: "parser \<Rightarrow> pyval M" where
  "parse_equality rec s = rec (Tokens Comparison EQUALITY) s"

definition parse_comparison :: "parser \<Rightarrow> pyval M" where
  "parse_comparison rec s = rec (Tokens Range_call COMPARISON) s"

definition parse_range :: "config \<Rightarrow> parser \<Rightarrow> pyval M" where
  "parse_range cfg rec s =
     bnd (rec Bitwise) (\<lambda>this.
     bnd (match [''NOT'']) (\<lambda>negate.
     bnd (ifM (match [''LIKE''])
            (bnd (rec Term) (\<lambda>e. expression cfg ''Like'' [(''this'', this), (''expression'', e)]))
         (ifM (match [''RLIKE''])
            (bnd (rec Term) (\<lambda>e. expression cfg ''RegexLike'' [(''this'', this), (''expression'', e)]))
         (ifM (match [''IN''])
            (bnd (unlessM (match [''L_PAREN''])
                    (bnd get_prev (\<lambda>prev. raise_error cfg ''Expected ( after IN'' prev))) (\<lambda>_.
             bnd (rec Select) (\<lambda>query.
             bnd (if truthy query then expression cfg ''In'' [(''this'', this), (''query'', query)]
                  else bnd (rec (Csv Term)) (\<lambda>es.
                         expression cfg ''In'' [(''this'', this), (''expressions'', es)])) (\<lambda>this'.
             bnd (unlessM (match [''R_PAREN'']) (raise_error cfg ''Expected ) after IN'' None)) (\<lambda>_.
             ret this')))))
         (ifM (match [''BETWEEN''])
            (bnd (rec Term) (\<lambda>low.
             bnd (match [''AND'']) (\<lambda>_.
             bnd (rec Term) (\<lambda>high.
             expression cfg ''Between'' [(''this'', this), (''low'', low), (''high'', high)]))))
            (ret this))))) (\<lambda>this'.
     if truthy negate then expression cfg ''Not'' [(''this'', this')] else ret this'))) s"

definition parse_bitwise :: "parser \<Rightarrow> pyval M" where
  "parse_bitwise rec s = rec (Tokens Term BITWISE) s"

definition parse_term :: "parser \<Rightarrow> pyval M" where
  "parse_term rec s = rec (Tokens Factor TERM_tbl) s"

definition parse_factor :: "parser \<Rightarrow> pyval M" where
  "parse_factor rec s = rec (Tokens Unary FACTOR) s"

definition parse_unary :: "config \<Rightarrow> parser \<Rightarrow> pyval M" where
  "parse_unary cfg rec s =
     ifM (match [''NOT''])
       (bnd (rec Unary) (\<lambda>u. expression cfg ''Not'' [(''this'', u)]))
    (ifM (match [''TILDA''])
       (bnd (rec Unary) (\<lambda>u. expression cfg ''BitwiseNot'' [(''this'', u)]))
    (ifM (match [''DASH''])
       (bnd (rec Unary) (\<lambda>u. expression cfg ''Neg'' [(''this'', u)]))
       (rec Type))) s"

definition parse_type :: "config \<Rightarrow> parser \<Rightarrow> pyval M" where
  "parse_type cfg rec s =
     ifM (match [''INTERVAL''])
       (bnd (match [''STRING'', ''NUMBER'']) (\<lambda>this.
        bnd (match [''VAR'']) (\<lambda>unit.
        expression cfg ''Interval'' [(''this'', this), (''unit'', unit)])))
       (bnd (rec Types) (\<lambda>type_token.
        bnd (rec Primary) (\<lambda>this.
        if truthy type_token then
          (if truthy this then expression cfg ''Cast'' [(''this'', this), (''to'', type_token)]
           else ret type_token)
        else
          ifM (match [''DCOLON''])
            (bnd (rec Types) (\<lambda>type_token.
             bnd (if \<not> truthy type_token then raise_error cfg ''Expected type'' None else ret ()) (\<lambda>_.
             expression cfg ''Cast'' [(''this'', this), (''to'', type_token)])))
            (rec (ColumnDef this))))) s"

definition parse_types :: "parser \<Rightarrow> pyval M" where
  "parse_types rec s =
     bnd get_curr (\<lambda>curr.
     bnd get_next (\<lambda>next.
     if (case curr of
           None \<Rightarrow> False
         | Some c \<Rightarrow>
             token_type c \<in> set AMBIGUOUS_TOKEN_TYPES
             \<and> (case next of
                    None \<Rightarrow> False
                  | Some n \<Rightarrow> token_type n \<in> set [''L_PAREN'', ''L_BRACKET'']))
     then ret PNone
     else
        ifM (match [''TIMESTAMP'', ''TIMESTAMPTZ''])
          (bnd (match [''WITH'']) (\<lambda>tz.
           bnd (match [''WITHOUT'']) (\<lambda>_.
           bnd (match [''TIME'']) (\<lambda>_.
           bnd (match [''ZONE'']) (\<lambda>_.
           if truthy tz then ret (PTok (Token ''TIMESTAMPTZ'' ''TIMESTAMPTZ''))
           else ret (PTok (Token ''TIMESTAMP'' ''TIMESTAMP'')))))))
          (bnd (match TYPE_TOKENS) (\<lambda>t. rec (Function t False))))) s"

text \<open>
  The closure \<^verbatim>\<open>parse_option\<close> of \<^verbatim>\<open>_parse_column_def\<close>; it returns the updated
  \<^verbatim>\<open>options\<close> dictionary.
\<close>

definition column_def_parse_option ::
  "(string \<times> pyval) list \<Rightarrow> string \<Rightarrow> pyval M \<Rightarrow> (string \<times> pyval) list M" where
  "column_def_parse_option options option option_lambda s =
     bnd (lift (dict_get options option)) (\<lambda>cur.
       if \<not> truthy cur then
         bnd option_lambda (\<lambda>v.
           let options' = dict_set options option v in
           if truthy v then ret (dict_set options' ''parsed'' (PBool True)) else ret options')
       else ret options) s"

definition pybool :: "pyval M \<Rightarrow> pyval M" where
  "pybool m s = bnd m (\<lambda>v. ret (PBool (truthy v))) s"

definition parse_column_def_loop ::
  "config \<Rightarrow> parser \<Rightarrow> pyval \<Rightarrow> pyval \<Rightarrow> (string \<times> pyval) list \<Rightarrow> pyval M" where
  "parse_column_def_loop cfg rec this kind options s =
     bnd (lift (dict_get options ''parsed'')) (\<lambda>parsed.
       if truthy parsed then
         bnd (column_def_parse_option (dict_set options ''parsed'' (PBool False)) ''auto_increment''
                (pybool (match [''AUTO_INCREMENT'']))) (\<lambda>o1.
         bnd (column_def_parse_option o1 ''collate''
                (andM (match [''COLLATE'']) (match [''VAR'']))) (\<lambda>o2.
         bnd (column_def_parse_option o2 ''default''
                (andM (match [''DEFAULT'']) (match PRIMARY_TOKENS))) (\<lambda>o3.
         bnd (column_def_parse_option o3 ''not_null''
                (pybool (andM (match [''NOT'']) (match [''NULL''])))) (\<lambda>o4.
         bnd (column_def_parse_option o4 ''comment''
                (andM (match [''SCHEMA_COMMENT'']) (match [''STRING'']))) (\<lambda>o5.
         rec (ColumnDefLoop this kind o5))))))
       else
         expression cfg ''ColumnDef''
           ([(''this'', this), (''kind'', kind)] @ dict_pop options ''parsed'')) s"

definition parse_column_def :: "parser \<Rightarrow> pyval \<Rightarrow> pyval M" where
  "parse_column_def rec this s =
     bnd (rec Types) (\<lambda>kind.
       if \<not> truthy kind then ret this
       else rec (ColumnDefLoop this kind
              [(''not_null'', PNone), (''auto_increment'', PNone), (''collate'', PNone),
               (''comment'', PNone), (''default'', PNone), (''parsed'', PBool True)])) s"

definition parse_primary :: "config \<Rightarrow> parser \<Rightarrow> pyval M" where
  "parse_primary cfg rec s =
     ifM (match PRIMARY_TOKENS)
       (bnd get_prev (\<lambda>prev. ret (opt_val prev)))
    (ifM (match [''L_PAREN''])
       (bnd get_prev (\<lambda>paren.
        bnd (orM (rec Select) (rec Conjunction)) (\<lambda>this.
        bnd (unlessM (match [''R_PAREN'']) (raise_error cfg ''Expecting )'' paren)) (\<lambda>_.
        expression cfg ''Paren'' [(''this'', this)]))))
       (bnd get_curr (\<lambda>curr.
          if curr = None then bnd (raise_error cfg ''Expecting expression'' None) (\<lambda>_. ret PNone)
          else rec Column))) s"

definition parse_column_loop ::
  "config \<Rightarrow> parser \<Rightarrow> pyval \<Rightarrow> pyval \<Rightarrow> pyval \<Rightarrow> pyval \<Rightarrow> pyval M" where
  "parse_column_loop cfg rec this table db flds s =
     ifM (match [''DOT''])
       (if truthy db then
          bnd (match COLUMN_TOKENS) (\<lambda>f.
            let fields0 = (if truthy flds then flds else PList [db, table, this]) in
            case fields0 of
              PList fs \<Rightarrow> rec (ColumnLoop this table db (PList (fs @ [f])))
            | _ \<Rightarrow> throw (AttributeError ''append''))
        else
          bnd (match COLUMN_TOKENS) (\<lambda>this'.
            rec (ColumnLoop this' this (if truthy table then table else db) flds)))
       (bnd (if is_token_of this COLUMN_TOKENS then
               (if truthy flds then
                  expression cfg ''Column''
                    [(''this'', PNone), (''db'', PNone), (''table'', PNone), (''fields'', flds)]
                else
                  expression cfg ''Column''
                    [(''this'', this), (''db'', db), (''table'', table), (''fields'', flds)])
             else ret this) (\<lambda>this'.
        rec (Brackets this'))) s"

definition parse_column :: "parser \<Rightarrow> pyval M" where
  "parse_column rec s =
     bnd get_curr (\<lambda>curr.
     bnd (lift (token_type_of (opt_val curr))) (\<lambda>tt.
       if tt \<in> set NON_COLUMN_TOKENS then ret PNone
       else
         bnd advance (\<lambda>_.
         bnd get_prev (\<lambda>prev.
         bnd (rec (Function (opt_val prev) False)) (\<lambda>this.
         rec (ColumnLoop this PNone PNone PNone)))))) s"

subsection \<open>Function calls, CASE, CAST and windows\<close>

definition class_of :: "pyval \<Rightarrow> exn + string" where
  "class_of v = (case v of Expression c a \<Rightarrow> Inr c | _ \<Rightarrow> Inl (AttributeError ''arg_types''))"

definition arity_message :: "nat \<Rightarrow> nat \<Rightarrow> string" where
  "arity_message n m =
     ''The number of provided arguments ('' @ str_of_nat n @ '') is greater than ''
     @ ''the maximum number of supported arguments ('' @ str_of_nat m @ '')''"

definition parse_function :: "config \<Rightarrow> parser \<Rightarrow> pyval \<Rightarrow> bool \<Rightarrow> pyval M" where
  "parse_function cfg rec this schema s =
     (if \<not> truthy this then ret this
      else
        bnd (lift (token_type_of this)) (\<lambda>tt.
          if tt = ''CASE'' then rec Case
          else
            ifM (match [''L_PAREN''])
              (bnd (if tt = ''CAST'' then rec Cast
                    else if tt = ''COUNT'' then rec Count
                    else if tt = ''EXTRACT'' then rec Extract
                    else
                      bnd (rec (Csv Conjunction)) (\<lambda>args.
                      bnd (lift (text_of this)) (\<lambda>txt.
                        if schema then
                          expression cfg ''Schema'' [(''this'', this), (''expressions'', args)]
                        else
                          case c_functions cfg (c_upper cfg txt) of
                            None \<Rightarrow>
                              expression cfg ''Anonymous''
                                [(''this'', PStr txt), (''expressions'', args)]
                          | Some function \<Rightarrow>
                              (case args of
                                 PList as \<Rightarrow>
                                   (let args' = map ensure_non_token as;
                                        this' = function args'
                                    in bnd (validate_expression cfg this') (\<lambda>_.
                                       bnd (lift (class_of this')) (\<lambda>cls.
                                       bnd (if length args' > length (c_arg_types cfg cls)
                                               \<and> \<not> c_is_var_len_args cfg cls
                                            then raise_error cfg
                                                   (arity_message (length args')
                                                      (length (c_arg_types cfg cls))) None
                                            else ret ()) (\<lambda>_.
                                       ret this'))))
                               | _ \<Rightarrow> throw (AttributeError ''__iter__''))))) (\<lambda>this'.
               bnd (unlessM (match [''R_PAREN'']) (raise_error cfg ''Expected )'' None)) (\<lambda>_.
               rec (Window this'))))
              (ret this))) s"

definition parse_case_loop :: "config \<Rightarrow> parser \<Rightarrow> pyval \<Rightarrow> pyval list \<Rightarrow> pyval M" where
  "parse_case_loop cfg rec expr ifs s =
     ifM (match [''WHEN''])
       (bnd (rec Conjunction) (\<lambda>this.
        bnd (match [''THEN'']) (\<lambda>_.
        bnd (rec Conjunction) (\<lambda>then_val.
        bnd (expression cfg ''If'' [(''this'', this), (''true'', then_val)]) (\<lambda>i.
        rec (CaseLoop expr (ifs @ [i])))))))
       (bnd (ifM (match [''ELSE'']) (rec Conjunction) (ret PNone)) (\<lambda>default.
        bnd (unlessM (match [''END''])
               (bnd get_prev (\<lambda>prev. raise_error cfg ''Expected END after CASE'' prev))) (\<lambda>_.
        bnd (expression cfg ''Case''
               [(''this'', expr), (''ifs'', PList ifs), (''default'', default)]) (\<lambda>c.
        rec (Brackets c))))) s"

definition parse_case :: "parser \<Rightarrow> pyval M" where
  "parse_case rec s = bnd (rec Conjunction) (\<lambda>expr. rec (CaseLoop expr [])) s"

definition parse_count :: "config \<Rightarrow> parser \<Rightarrow> pyval M" where
  "parse_count cfg rec s =
     bnd (match [''DISTINCT'']) (\<lambda>distinct.
     bnd (rec Conjunction) (\<lambda>this.
     expression cfg ''Count'' [(''distinct'', distinct), (''this'', this)])) s"

definition parse_extract :: "config \<Rightarrow> parser \<Rightarrow> pyval M" where
  "parse_extract cfg rec s =
     bnd (match [''VAR'']) (\<lambda>this.
     bnd (unlessM (match [''FROM''])
            (bnd get_prev (\<lambda>prev. raise_error cfg ''Expected FROM after EXTRACT'' prev))) (\<lambda>_.
     bnd (rec Type) (\<lambda>e.
     expression cfg ''Extract'' [(''this'', this), (''expression'', e)]))) s"

definition parse_cast :: "config \<Rightarrow> parser \<Rightarrow> pyval M" where
  "parse_cast cfg rec s =
     bnd (rec Conjunction) (\<lambda>this.
     bnd (unlessM (match [''ALIAS'']) (raise_error cfg ''Expected AS after CAST'' None)) (\<lambda>_.
     bnd (unlessM (match TYPE_TOKENS) (raise_error cfg ''Expected TYPE after CAST'' None)) (\<lambda>_.
     bnd get_prev (\<lambda>prev.
     bnd (rec (Brackets (opt_val prev))) (\<lambda>b.
     bnd (rec (Function b False)) (\<lambda>to.
     expression cfg ''Cast'' [(''this'', this), (''to'', to)])))))) s"

text \<open>
  \<^verbatim>\<open>_parse_window_spec\<close> returns the dictionary \<^verbatim>\<open>{"value": ..., "side": ...}\<close>; it is
  returned here as the list of its two values.
\<close>

definition parse_window_spec :: "parser \<Rightarrow> pyval M" where
  "parse_window_spec rec s =
     bnd (match [''BETWEEN'']) (\<lambda>_.
     bnd (orM (match [''UNBOUNDED'', ''CURRENT_ROW'']) (rec Bitwise)) (\<lambda>v.
     bnd (match [''PRECEDING'', ''FOLLOWING'']) (\<lambda>side.
     ret (PList [v, side])))) s"

definition spec_value :: "pyval \<Rightarrow> exn + pyval" where
  "spec_value d = (case d of PList [v, side] \<Rightarrow> Inr v | _ \<Rightarrow> Inl (KeyError ''value''))"

definition spec_side :: "pyval \<Rightarrow> exn + pyval" where
  "spec_side d = (case d of PList [v, side] \<Rightarrow> Inr side | _ \<Rightarrow> Inl (KeyError ''side''))"

definition parse_window :: "config \<Rightarrow> parser \<Rightarrow> pyval \<Rightarrow> pyval M" where
  "parse_window cfg rec this s =
     ifM (match [''OVER''])
       (bnd (unlessM (match [''L_PAREN'']) (raise_error cfg ''Expecting ( after OVER'' None)) (\<lambda>_.
        bnd (ifM (match [''PARTITION'']) (rec (Csv Type)) (ret PNone)) (\<lambda>partition.
        bnd (rec Order) (\<lambda>order.
        bnd (match [''ROWS'', ''RANGE'']) (\<lambda>kind.
        bnd (if truthy kind then
               bnd (match [''BETWEEN'']) (\<lambda>_.
               bnd (rec WindowSpec) (\<lambda>start.
               bnd (match [''AND'']) (\<lambda>_.
               bnd (rec WindowSpec) (\<lambda>end_spec.
               bnd (lift (spec_value start)) (\<lambda>start_value.
               bnd (lift (spec_side start)) (\<lambda>start_side.
               bnd (lift (spec_value end_spec)) (\<lambda>end_value.
               bnd (lift (spec_side end_spec)) (\<lambda>end_side.
               expression cfg ''WindowSpec''
                 [(''kind'', kind), (''start'', start_value), (''start_side'', start_side),
                  (''end'', end_value), (''end_side'', end_side)]))))))))
             else ret PNone) (\<lambda>spec.
        bnd (unlessM (match [''R_PAREN'']) (raise_error cfg ''Expecting )'' None)) (\<lambda>_.
        expression cfg ''Window''
          [(''this'', this), (''partition'', partition), (''order'', order), (''spec'', spec)])))))))
       (ret this) s"

subsection \<open>Clauses of a query\<close>

definition parse_hint :: "config \<Rightarrow> parser \<Rightarrow> pyval M" where
  "parse_hint cfg rec s =
     ifM (match [''HINT''])
       (bnd (rec Primary) (\<lambda>hint.
        bnd (unlessM (match [''COMMENT_END'']) (raise_error cfg ''Expected */ after HINT'' None)) (\<lambda>_.
        expression cfg ''Hint'' [(''this'', hint)])))
       (ret PNone) s"

definition parse_from :: "config \<Rightarrow> parser \<Rightarrow> pyval M" where
  "parse_from cfg rec s =
     ifM (match [''FROM''])
       (bnd (rec (Csv (Table (PBool False) False))) (\<lambda>es.
          expression cfg ''From'' [(''expressions'', es)]))
       (ret PNone) s"

definition parse_laterals_loop ::
  "config \<Rightarrow> parser \<Rightarrow> pyval list \<Rightarrow> pyval option \<Rightarrow> pyval M" where
  "parse_laterals_loop cfg rec laterals columns s =
     ifM (match [''LATERAL''])
       (bnd (unlessM (match [''VIEW'']) (raise_error cfg ''Expected VIEW afteral LATERAL'' None)) (\<lambda>_.
        bnd (match [''OUTER'']) (\<lambda>outer.
        bnd (rec Primary) (\<lambda>this.
        bnd (rec IdVar) (\<lambda>table.
        bnd (ifM (match [''ALIAS''])
               (bnd (rec (Csv IdVar)) (\<lambda>cs. ret (Some cs)))
               (ret columns)) (\<lambda>columns'.
        bnd (expression cfg ''Table'' [(''this'', table)]) (\<lambda>t.
        bnd (case columns' of
               None \<Rightarrow> throw (UnboundLocalError ''columns'')
             | Some cs \<Rightarrow>
                 expression cfg ''Lateral''
                   [(''this'', this), (''outer'', PBool (truthy outer)), (''table'', t),
                    (''columns'', cs)]) (\<lambda>l.
        rec (LateralsLoop (laterals @ [l]) columns')))))))))
       (ret (PList laterals)) s"

definition parse_laterals :: "parser \<Rightarrow> pyval M" where
  "parse_laterals rec s = rec (LateralsLoop [] None) s"

definition parse_joins_loop :: "config \<Rightarrow> parser \<Rightarrow> pyval list \<Rightarrow> pyval M" where
  "parse_joins_loop cfg rec joins s =
     bnd (match [''LEFT'', ''RIGHT'', ''FULL'']) (\<lambda>side.
     bnd (match [''INNER'', ''OUTER'', ''CROSS'']) (\<lambda>kind.
     ifM (match [''JOIN''])
       (bnd (rec (Table (PBool False) False)) (\<lambda>this.
        bnd (if truthy side then bnd (lift (text_of side)) (\<lambda>t. ret (PStr t)) else ret PNone) (\<lambda>side_text.
        bnd (if truthy kind then bnd (lift (text_of kind)) (\<lambda>t. ret (PStr t)) else ret PNone) (\<lambda>kind_text.
        bnd (ifM (match [''ON'']) (rec Conjunction) (ret PNone)) (\<lambda>on.
        bnd (expression cfg ''Join''
               [(''this'', this), (''side'', side_text), (''kind'', kind_text), (''on'', on)]) (\<lambda>j.
        rec (JoinsLoop (joins @ [j]))))))))
       (ret (PList joins)))) s"

definition parse_joins :: "parser \<Rightarrow> pyval M" where
  "parse_joins rec s = rec (JoinsLoop []) s"

definition parse_where :: "config \<Rightarrow> parser \<Rightarrow> pyval M" where
  "parse_where cfg rec s =
     ifM (match [''WHERE''])
       (bnd (rec Conjunction) (\<lambda>c. expression cfg ''Where'' [(''this'', c)]))
       (ret PNone) s"

definition parse_group :: "config \<Rightarrow> parser \<Rightarrow> pyval M" where
  "parse_group cfg rec s =
     ifM (match [''GROUP''])
       (bnd (rec (Csv Conjunction)) (\<lambda>es. expression cfg ''Group'' [(''expressions'', es)]))
       (ret PNone) s"

definition parse_having :: "config \<Rightarrow> parser \<Rightarrow> pyval M" where
  "parse_having cfg rec s =
     ifM (match [''HAVING''])
       (bnd (rec Conjunction) (\<lambda>c. expression cfg ''Having'' [(''this'', c)]))
       (ret PNone) s"

definition parse_order :: "config \<Rightarrow> parser \<Rightarrow> pyval M" where
  "parse_order cfg rec s =
     ifM (match [''ORDER''])
       (bnd (rec (Csv Ordered)) (\<lambda>es. expression cfg ''Order'' [(''expressions'', es)]))
       (ret PNone) s"

definition parse_ordered :: "config \<Rightarrow> parser \<Rightarrow> pyval M" where
  "parse_ordered cfg rec s =
     bnd (rec Bitwise) (\<lambda>this.
     bnd (orM (match [''ASC'']) (match [''DESC''])) (\<lambda>desc.
     bnd (if truthy desc then bnd (lift (token_type_of desc)) (\<lambda>tt. ret (PBool (tt = ''DESC'')))
          else ret (PBool False)) (\<lambda>d.
     expression cfg ''Ordered'' [(''this'', this), (''desc'', d)]))) s"

definition parse_limit :: "config \<Rightarrow> pyval M" where
  "parse_limit cfg s =
     ifM (match [''LIMIT''])
       (bnd (match [''NUMBER'']) (\<lambda>limit_number.
        bnd (if truthy limit_number then bnd (lift (text_of limit_number)) (\<lambda>t. ret (PStr t))
             else ret PNone) (\<lambda>this.
        expression cfg ''Limit'' [(''this'', this)])))
       (ret PNone) s"

definition parse_union :: "config \<Rightarrow> parser \<Rightarrow> pyval \<Rightarrow> pyval M" where
  "parse_union cfg rec this s =
     ifM (match [''UNION''])
       (bnd (match [''ALL'']) (\<lambda>a.
        bnd (rec Select) (\<lambda>e.
        expression cfg ''Union''
          [(''this'', this), (''expression'', e), (''distinct'', PBool (\<not> truthy a))])))
       (ret this) s"

subsection \<open>Tables and queries\<close>

definition parse_unnest :: "config \<Rightarrow> parser \<Rightarrow> pyval M" where
  "parse_unnest cfg rec s =
     ifM (match [''UNNEST''])
       (bnd (unlessM (match [''L_PAREN'']) (raise_error cfg ''Expecting ( after unnest'' None)) (\<lambda>_.
        bnd (rec (Csv IdVar)) (\<lambda>expressions.
        bnd (unlessM (match [''R_PAREN'']) (raise_error cfg ''Expecting )'' None)) (\<lambda>_.
        bnd (andM (match [''WITH'']) (match [''ORDINALITY''])) (\<lambda>ordinality.
        bnd (match [''ALIAS'']) (\<lambda>_.
        bnd (rec IdVar) (\<lambda>table.
        ifM (match [''L_PAREN''])
          (bnd (rec (Csv IdVar)) (\<lambda>columns.
           bnd (expression cfg ''Unnest''
                  [(''expressions'', expressions), (''ordinality'', PBool (truthy ordinality)),
                   (''table'', table), (''columns'', columns)]) (\<lambda>unnest.
           bnd (unlessM (match [''R_PAREN'']) (raise_error cfg ''Expecting )'' None)) (\<lambda>_.
           ret unnest))))
          (expression cfg ''Unnest''
             [(''expressions'', expressions), (''ordinality'', ordinality), (''table'', table)]))))))))
       (ret PNone) s"

definition parse_table :: "config \<Rightarrow> parser \<Rightarrow> pyval \<Rightarrow> bool \<Rightarrow> pyval M" where
  "parse_table cfg rec alias schema s =
     bnd (rec Unnest) (\<lambda>unnest.
       if truthy unnest then ret unnest
       else
         bnd (ifM (match [''L_PAREN''])
                (bnd (rec Cte) (\<lambda>e.
                 bnd (unlessM (match [''R_PAREN'']) (raise_error cfg ''Expecting )'' None)) (\<lambda>_.
                 ret e)))
                (bnd (match [''VAR'', ''IDENTIFIER'']) (\<lambda>m.
                 bnd (rec (Function m schema)) (\<lambda>table.
                 bnd (ifM (match [''DOT''])
                        (bnd (unlessM (match [''VAR'', ''IDENTIFIER''])
                                (raise_error cfg ''Expected table name'' None)) (\<lambda>_.
                         bnd get_prev (\<lambda>prev. ret (opt_val prev, table))))
                        (ret (table, PNone))) (\<lambda>(table', db).
                 expression cfg ''Table'' [(''this'', table'), (''db'', db)]))))) (\<lambda>e.
         bnd (if alias = PNone then ret e
              else if truthy alias then expression cfg ''Alias'' [(''this'', e), (''alias'', alias)]
              else rec (Alias e)) (\<lambda>this.
         if \<not> isinstance this [''Alias'', ''Table''] then
           expression cfg ''Alias'' [(''this'', this), (''alias'', PNone)]
         else ret this))) s"

definition parse_value :: "config \<Rightarrow> parser \<Rightarrow> pyval M" where
  "parse_value cfg rec s =
     bnd (unlessM (match [''L_PAREN'']) (raise_error cfg ''Expected ( for values'' None)) (\<lambda>_.
     bnd (rec (Csv Conjunction)) (\<lambda>expressions.
     bnd (unlessM (match [''R_PAREN'']) (raise_error cfg ''Expected ) for values'' None)) (\<lambda>_.
     expression cfg ''Tuple'' [(''expressions'', expressions)]))) s"

definition parse_values :: "config \<Rightarrow> parser \<Rightarrow> pyval M" where
  "parse_values cfg rec s =
     ifM (match [''VALUES''])
       (bnd (rec (Csv Value)) (\<lambda>es. expression cfg ''Values'' [(''expressions'', es)]))
       (ret PNone) s"

definition parse_select :: "config \<Rightarrow> parser \<Rightarrow> pyval M" where
  "parse_select cfg rec s =
     bnd (ifM (match [''SELECT''])
            (bnd (rec Hint) (\<lambda>hint.
             bnd (match [''DISTINCT'']) (\<lambda>distinct.
             bnd (rec (Csv Expr)) (\<lambda>expressions.
             bnd (rec From) (\<lambda>from.
             bnd (rec Laterals) (\<lambda>laterals.
             bnd (rec Joins) (\<lambda>joins.
             bnd (rec Where) (\<lambda>where_clause.
             bnd (rec Group) (\<lambda>group.
             bnd (rec Having) (\<lambda>having.
             bnd (rec Order) (\<lambda>order.
             bnd (rec Limit) (\<lambda>limit.
             expression cfg ''Select''
               [(''hint'', hint), (''distinct'', PBool (truthy distinct)),
                (''expressions'', expressions), (''from'', from), (''laterals'', laterals),
                (''joins'', joins), (''where'', where_clause), (''group'', group),
                (''having'', having), (''order'', order), (''limit'', limit)]))))))))))))
            (rec Values)) (\<lambda>this.
     rec (Union_call this)) s"

definition parse_cte_loop :: "config \<Rightarrow> parser \<Rightarrow> pyval list \<Rightarrow> pyval M" where
  "parse_cte_loop cfg rec expressions s =
     bnd (match [''RECURSIVE'']) (\<lambda>recursive.
     bnd (match [''IDENTIFIER'', ''VAR'']) (\<lambda>m.
     bnd (rec (Function m False)) (\<lambda>alias.
     bnd (if \<not> truthy alias then raise_error cfg ''Expected alias after WITH'' None else ret ()) (\<lambda>_.
     bnd (unlessM (match [''ALIAS'']) (raise_error cfg ''Expected AS after WITH'' None)) (\<lambda>_.
     bnd (rec (Table alias False)) (\<lambda>t.
     ifM (match [''COMMA''])
       (rec (CteLoop (expressions @ [t])))
       (bnd (rec Select) (\<lambda>this.
        expression cfg ''CTE''
          [(''this'', this), (''expressions'', PList (expressions @ [t])),
           (''recursive'', PBool (truthy recursive))])))))))) s"

definition parse_cte :: "parser \<Rightarrow> pyval M" where
  "parse_cte rec s = ifM (match [''WITH'']) (rec (CteLoop [])) (rec Select) s"

subsection \<open>Statements\<close>

definition parse_exists :: "bool \<Rightarrow> pyval M" where
  "parse_exists not_arg s =
     andM (andM (match [''IF''])
                (if \<not> not_arg then ret (PBool True) else match [''NOT'']))
          (match [''EXISTS'']) s"

definition parse_drop :: "config \<Rightarrow> parser \<Rightarrow> pyval M" where
  "parse_drop cfg rec s =
     bnd (ifM (match [''TABLE'']) (ret (Some (PStr ''table'')))
         (ifM (match [''VIEW'']) (ret (Some (PStr ''view'')))
            (bnd (raise_error cfg ''Expected TABLE or View'' None) (\<lambda>_. ret None)))) (\<lambda>kind.
     bnd (rec (Exists False)) (\<lambda>exists.
     bnd (rec (Table PNone False)) (\<lambda>this.
     case kind of
       None \<Rightarrow> throw (UnboundLocalError ''kind'')
     | Some k \<Rightarrow> expression cfg ''Drop'' [(''exists'', exists), (''this'', this), (''kind'', k)]))) s"

text \<open>The closure \<^verbatim>\<open>parse_option\<close> of \<^verbatim>\<open>_parse_create\<close>.\<close>

definition create_parse_option ::
  "(string \<times> pyval) list \<Rightarrow> string \<Rightarrow> token_type \<Rightarrow> pyval M \<Rightarrow> (string \<times> pyval) list M" where
  "create_parse_option options option tok option_lambda s =
     bnd (lift (dict_get options option)) (\<lambda>cur.
       if \<not> truthy cur then
         ifM (match [tok])
           (bnd (match [''EQ'']) (\<lambda>_.
            bnd option_lambda (\<lambda>v.
            ret (dict_set (dict_set options option v) ''parsed'' (PBool True)))))
           (ret options)
       else ret options) s"

definition parse_create_loop ::
  "config \<Rightarrow> parser \<Rightarrow> (string \<times> pyval) list \<Rightarrow> (string \<times> pyval) list \<Rightarrow> pyval M" where
  "parse_create_loop cfg rec kwargs options s =
     bnd (lift (dict_get options ''parsed'')) (\<lambda>parsed.
       if truthy parsed then
         bnd (create_parse_option (dict_set options ''parsed'' (PBool False)) ''engine'' ''ENGINE''
                (match [''VAR''])) (\<lambda>o1.
         bnd (create_parse_option o1 ''auto_increment'' ''AUTO_INCREMENT'' (match [''NUMBER''])) (\<lambda>o2.
         bnd (create_parse_option o2 ''collate'' ''COLLATE'' (match [''VAR''])) (\<lambda>o3.
         bnd (create_parse_option o3 ''comment'' ''SCHEMA_COMMENT'' (match [''STRING''])) (\<lambda>o4.
         bnd (lift (dict_get o4 ''character_set'')) (\<lambda>cs.
         bnd (if \<not> truthy cs then
                bnd (match [''DEFAULT'']) (\<lambda>d.
                create_parse_option o4 ''character_set'' ''CHARACTER_SET''
                  (bnd (match [''VAR'']) (\<lambda>v.
                   expression cfg ''CharacterSet''
                     [(''this'', v), (''default'', PBool (truthy d))])))
              else ret o4) (\<lambda>o5.
         rec (CreateLoop kwargs o5)))))))
       else expression cfg ''Create'' (kwargs @ dict_pop options ''parsed'')) s"

definition parse_create :: "config \<Rightarrow> parser \<Rightarrow> pyval M" where
  "parse_create cfg rec s =
     bnd (match [''TEMPORARY'']) (\<lambda>temporary.
     bnd (andM (match [''OR'']) (match [''REPLACE''])) (\<lambda>replace.
     bnd (match [''TABLE'', ''VIEW'']) (\<lambda>create_token.
     bnd (if \<not> truthy create_token then raise_error cfg ''Expected TABLE or View'' None
          else ret ()) (\<lambda>_.
     bnd (rec (Exists True)) (\<lambda>exists.
     bnd (rec (Table PNone True)) (\<lambda>this.
     bnd (lift (token_type_of create_token)) (\<lambda>tt.
     bnd (if tt = ''TABLE'' then
            ifM (match [''STORED''])
              (bnd (match [''ALIAS'']) (\<lambda>_.
               bnd (rec IdVar) (\<lambda>i. expression cfg ''FileFormat'' [(''this'', i)])))
           (ifM (match [''WITH''])
              (bnd (match [''L_PAREN'']) (\<lambda>_.
               bnd (match [''FORMAT'']) (\<lambda>_.
               bnd (match [''EQ'']) (\<lambda>_.
               bnd (rec Primary) (\<lambda>p.
               bnd (expression cfg ''FileFormat'' [(''this'', p)]) (\<lambda>file_format.
               bnd (unlessM (match [''R_PAREN''])
                      (raise_error cfg ''Expected ) after format'' None)) (\<lambda>_.
               ret file_format)))))))
              (ret PNone))
          else ret PNone) (\<lambda>file_format.
     bnd (ifM (match [''ALIAS'']) (rec Select) (ret PNone)) (\<lambda>e.
     rec (CreateLoop
            [(''this'', this), (''kind'', create_token), (''expression'', e), (''exists'', exists),
             (''file_format'', file_format), (''temporary'', PBool (truthy temporary)),
             (''replace'', PBool (truthy replace))]
            [(''engine'', PNone), (''auto_increment'', PNone), (''character_set'', PNone),
             (''collate'', PNone), (''comment'', PNone), (''parsed'', PBool True)])))))))))) s"

definition parse_insert :: "config \<Rightarrow> parser \<Rightarrow> pyval M" where
  "parse_insert cfg rec s =
     bnd (match [''OVERWRITE'']) (\<lambda>overwrite.
     bnd (match [''INTO'']) (\<lambda>_.
     bnd (match [''TABLE'']) (\<lambda>_.
     bnd (rec (Table PNone False)) (\<lambda>this.
     bnd (rec (Exists False)) (\<lambda>exists.
     bnd (rec Select) (\<lambda>e.
     expression cfg ''Insert''
       [(''this'', this), (''exists'', PBool (truthy exists)), (''expression'', e),
        (''overwrite'', PBool (truthy overwrite))])))))) s"

definition parse_update :: "config \<Rightarrow> parser \<Rightarrow> pyval M" where
  "parse_update cfg rec s =
     bnd (rec (Table PNone False)) (\<lambda>this.
     bnd (andM (match [''SET'']) (rec (Csv Equality))) (\<lambda>expressions.
     bnd (rec Where) (\<lambda>where_clause.
     expression cfg ''Update''
       [(''this'', this), (''expressions'', expressions), (''where'', where_clause)]))) s"

definition parse_statement :: "parser \<Rightarrow> pyval M" where
  "parse_statement rec s =
     bnd get_curr (\<lambda>curr.
      if curr = None then ret PNone
      else
        ifM (match [''CREATE'']) (rec Create)
       (ifM (match [''DROP'']) (rec Drop)
       (ifM (match [''INSERT'']) (rec Insert)
       (ifM (match [''UPDATE'']) (rec Update)
          (bnd (rec Cte) (\<lambda>cte. if truthy cte then ret cte else rec Expr)))))) s"

subsection \<open>Tying the knot\<close>

definition dispatch :: "config \<Rightarrow> parser \<Rightarrow> call \<Rightarrow> pyval M" where
  "dispatch cfg rec c s =
     (case c of
        Statement \<Rightarrow> parse_statement rec s
      | Drop \<Rightarrow> parse_drop cfg rec s
      | Exists not_arg \<Rightarrow> parse_exists not_arg s
      | Create \<Rightarrow> parse_create cfg rec s
      | CreateLoop kwargs options \<Rightarrow> parse_create_loop cfg rec kwargs options s
      | Insert \<Rightarrow> parse_insert cfg rec s
      | Update \<Rightarrow> parse_update cfg rec s
      | Values \<Rightarrow> parse_values cfg rec s
      | Value \<Rightarrow> parse_value cfg rec s
      | Cte \<Rightarrow> parse_cte rec s
      | CteLoop expressions \<Rightarrow> parse_cte_loop cfg rec expressions s
      | Select \<Rightarrow> parse_select cfg rec s
      | Hint \<Rightarrow> parse_hint cfg rec s
      | From \<Rightarrow> parse_from cfg rec s
      | Laterals \<Rightarrow> parse_laterals rec s
      | LateralsLoop laterals columns \<Rightarrow> parse_laterals_loop cfg rec laterals columns s
      | Joins \<Rightarrow> parse_joins rec s
      | JoinsLoop joins \<Rightarrow> parse_joins_loop cfg rec joins s
      | Table alias schema \<Rightarrow> parse_table cfg rec alias schema s
      | Unnest \<Rightarrow> parse_unnest cfg rec s
      | Where \<Rightarrow> parse_where cfg rec s
      | Group \<Rightarrow> parse_group cfg rec s
      | Having \<Rightarrow> parse_having cfg rec s
      | Order \<Rightarrow> parse_order cfg rec s
      | Ordered \<Rightarrow> parse_ordered cfg rec s
      | Limit \<Rightarrow> parse_limit cfg s
      | Union_call this \<Rightarrow> parse_union cfg rec this s
      | Expr \<Rightarrow> parse_expression rec s
      | Conjunction \<Rightarrow> parse_conjunction rec s
      | Equality \<Rightarrow> parse_equality rec s
      | Comparison \<Rightarrow> parse_comparison rec s
      | Range_call \<Rightarrow> parse_range cfg rec s
      | Bitwise \<Rightarrow> parse_bitwise rec s
      | Term \<Rightarrow> parse_term rec s
      | Factor \<Rightarrow> parse_factor rec s
      | Unary \<Rightarrow> parse_unary cfg rec s
      | Type \<Rightarrow> parse_type cfg rec s
      | Types \<Rightarrow> parse_types rec s
      | ColumnDef this \<Rightarrow> parse_column_def rec this s
      | ColumnDefLoop this kind options \<Rightarrow> parse_column_def_loop cfg rec this kind options s
      | Primary \<Rightarrow> parse_primary cfg rec s
      | Column \<Rightarrow> parse_column rec s
      | ColumnLoop this table db flds \<Rightarrow> parse_column_loop cfg rec this table db flds s
      | Function this schema \<Rightarrow> parse_function cfg rec this schema s
      | Case \<Rightarrow> parse_case rec s
      | CaseLoop expr ifs \<Rightarrow> parse_case_loop cfg rec expr ifs s
      | Count \<Rightarrow> parse_count cfg rec s
      | Extract \<Rightarrow> parse_extract cfg rec s
      | Cast \<Rightarrow> parse_cast cfg rec s
      | Window this \<Rightarrow> parse_window cfg rec this s
      | WindowSpec \<Rightarrow> parse_window_spec rec s
      | Brackets this \<Rightarrow> parse_brackets cfg rec this s
      | Dot this \<Rightarrow> parse_dot cfg rec this s
      | Alias this \<Rightarrow> parse_alias cfg rec this s
      | IdVar \<Rightarrow> parse_id_var s
      | Csv parse \<Rightarrow> parse_csv rec parse s
      | CsvLoop parse items \<Rightarrow> parse_csv_loop rec parse items s
      | Tokens parse expressions \<Rightarrow> parse_tokens rec parse expressions s
      | TokensLoop parse expressions this \<Rightarrow> parse_tokens_loop cfg rec parse expressions this s)"

text \<open>
  \<open>run cfg n c\<close> executes the call \<open>c\<close> with calls nested at most \<open>n\<close> deep;
  deeper nesting ends in \<open>OutOfFuel\<close>.
\<close>

primrec run :: "config \<Rightarrow> nat \<Rightarrow> call \<Rightarrow> pyval M" where
  "run cfg 0 c s = throw OutOfFuel s"
| "run cfg (Suc n) c s = dispatch cfg (run cfg n) c s"

section \<open>The entry point\<close>

text \<open>
  The first loop of \<^verbatim>\<open>parse\<close>: \<open>i\<close> is the position of the token at the head of the
  remaining list and \<open>total_len\<close> the length of the whole list.
\<close>

fun append_to_last :: "'a list list \<Rightarrow> 'a \<Rightarrow> 'a list list" where
  "append_to_last [] t = []"
| "append_to_last [c] t = [c @ [t]]"
| "append_to_last (c # cs) t = c # append_to_last cs t"

primrec split_chunks :: "nat \<Rightarrow> nat \<Rightarrow> token list \<Rightarrow> token list list \<Rightarrow> token list list" where
  "split_chunks total_len i [] chunks = chunks"
| "split_chunks total_len i (t # ts) chunks =
     split_chunks total_len (i + 1) ts
       (if token_type t = ''SEMICOLON'' then
          (if int i < int total_len - 1 then chunks @ [[]] else chunks)
        else append_to_last chunks t)"

text \<open>
  The second loop: one statement per chunk.  \<open>fuel\<close> bounds the depth of calls below
  \<^verbatim>\<open>_parse_statement\<close>.
\<close>

primrec parse_chunks :: "config \<Rightarrow> nat \<Rightarrow> token list list \<Rightarrow> pyval list \<Rightarrow> pyval list M" where
  "parse_chunks cfg fuel [] expressions s = ret expressions s"
| "parse_chunks cfg fuel (tokens # rest) expressions s =
     bnd (start_tokens tokens) (\<lambda>_.
     bnd advance (\<lambda>_.
     bnd (run cfg fuel Statement) (\<lambda>e.
     bnd get_index (\<lambda>i.
     bnd get_tokens (\<lambda>ts.
     bnd (if i < int (length ts)
          then raise_error cfg ''Invalid expression / Unexpected token'' None
          else ret ()) (\<lambda>_.
     parse_chunks cfg fuel rest (expressions @ [ensure_non_token e]))))))) s"

text \<open>
  \<^verbatim>\<open>parse(raw_tokens, code)\<close> up to the list \<^verbatim>\<open>expressions\<close> it has built when the
  back-references are wired; \<open>code\<close> is \<^verbatim>\<open>code or ""\<close>.
\<close>

definition parse :: "config \<Rightarrow> nat \<Rightarrow> token list \<Rightarrow> string \<Rightarrow> pyval list M" where
  "parse cfg fuel raw_tokens code s =
     (let chunks = split_chunks (length raw_tokens) 0 raw_tokens [[]]
      in parse_chunks cfg fuel chunks [] ((reset s)\<lparr>p_code := code, p_chunks := chunks\<rparr>))"

section \<open>The parts of the schema and of the registry used in the scenarios\<close>

text \<open>
  Modelled from the spec: the \<^verbatim>\<open>arg_types\<close> of the node classes of expressions.py that the
  scenarios of the specification construct through the factory.  The slots of a class are
  those the parser passes to it; a slot is mandatory where the specification's scenarios
  require it (\<^verbatim>\<open>this\<close> of \<^verbatim>\<open>Hint\<close>, \<^verbatim>\<open>true\<close> of \<^verbatim>\<open>If\<close>), and the operands of an operator
  and the items of a clause are mandatory.  A class that is not listed has no slots here.
\<close>

definition sqlglot_arg_types :: "string \<Rightarrow> (string \<times> bool) list" where
  "sqlglot_arg_types c =
     (if c = ''Hint'' then [(''this'', True)]
      else if c = ''If'' then [(''this'', True), (''true'', True), (''false'', False)]
      else if c = ''Column'' then
        [(''this'', False), (''table'', False), (''db'', False), (''fields'', False)]
      else if c = ''Table'' then [(''this'', True), (''db'', False)]
      else if c = ''From'' then [(''expressions'', True)]
      else if c = ''Where'' then [(''this'', True)]
      else if c = ''Select'' then
        [(''expressions'', True), (''hint'', False), (''distinct'', False), (''from'', False),
         (''laterals'', False), (''joins'', False), (''where'', False), (''group'', False),
         (''having'', False), (''order'', False), (''limit'', False)]
      else if c \<in> set [''And'', ''Or'', ''EQ'', ''NEQ'', ''Is'', ''GT'', ''GTE'', ''LT'', ''LTE''] then
        [(''this'', True), (''expression'', True)]
      else if c = ''Between'' then [(''this'', True), (''low'', True), (''high'', True)]
      else if c = ''In'' then [(''this'', True), (''expressions'', False), (''query'', False)]
      else if c = ''Decimal'' then [(''precision'', False), (''scale'', False)]
      else [])"

text \<open>\<^verbatim>\<open>_parse_decimal\<close> of parser.py.\<close>

definition parse_decimal :: "pyval list \<Rightarrow> pyval" where
  "parse_decimal args =
     (let size = length args;
          precision = (if size > 0 then args ! 0 else PNone);
          scale = (if size > 1 then args ! 1 else PNone)
      in Expression ''Decimal'' [(''precision'', precision), (''scale'', scale)])"

text \<open>
  Modelled from the spec: the builder \<^verbatim>\<open>from_arg_list\<close> that expressions.py gives a
  function class.  It is invoked with the parsed argument list and fills the slots of the
  class in declaration order; arguments beyond the slots are left out of the node.
\<close>

primrec fill_slots :: "(string \<times> bool) list \<Rightarrow> pyval list \<Rightarrow> (string \<times> pyval) list" where
  "fill_slots [] args = []"
| "fill_slots (kt # kts) args =
     (case args of
        [] \<Rightarrow> []
      | a # as \<Rightarrow> (if a \<noteq> PNone then [(fst kt, a)] else []) @ fill_slots kts as)"

definition from_arg_list :: "string \<Rightarrow> pyval list \<Rightarrow> pyval" where
  "from_arg_list cls args = Expression cls (fill_slots (sqlglot_arg_types cls) args)"

text \<open>
  Modelled from the spec: the part of \<^verbatim>\<open>Parser.FUNCTIONS\<close> that comes from
  \<^verbatim>\<open>exp.ALL_FUNCTIONS\<close>, of which the one function the scenarios call, \<^verbatim>\<open>IF\<close>, is
  entered.  The entries \<^verbatim>\<open>DECIMAL\<close> and \<^verbatim>\<open>NUMERIC\<close> are those of parser.py.
\<close>

definition FUNCTIONS :: "string \<Rightarrow> (pyval list \<Rightarrow> pyval) option" where
  "FUNCTIONS name =
     (if name = ''IF'' then Some (from_arg_list ''If'')
      else if name = ''DECIMAL'' \<or> name = ''NUMERIC'' then Some parse_decimal
      else None)"

text \<open>
  \<^verbatim>\<open>Parser(error_level=...)\<close> and the state \<^verbatim>\<open>__init__\<close> leaves: no additional functions,
  50 characters of context.  No class of the scenarios is of variable arity, and the names
  of their functions are ASCII text, on which \<^verbatim>\<open>str.upper\<close> is \<open>upper\<close>.
\<close>

definition Parser :: "ErrorLevel \<Rightarrow> config" where
  "Parser lvl =
     \<lparr>c_functions = FUNCTIONS, c_error_level = lvl, c_error_message_context = 50,
      c_arg_types = sqlglot_arg_types, c_is_var_len_args = (\<lambda>c. False), c_upper = upper\<rparr>"

definition init_state :: parser_state where
  "init_state =
     \<lparr>p_code = [], p_error = None, p_tokens = [], p_chunks = [[]], p_index = 0,
      p_curr = None, p_next = None, p_prev = None, p_log = []\<rparr>"

section \<open>Scenario inputs\<close>

text \<open>A token on line 1, and the state in which \<^verbatim>\<open>parse\<close> starts the statement of a chunk.\<close>

definition tk :: "token_type \<Rightarrow> string \<Rightarrow> nat \<Rightarrow> token" where
  "tk tt txt c = \<lparr>token_type = tt, token_text = txt, token_line = 1, token_col = c\<rparr>"

definition start_chunk :: "token list \<Rightarrow> string \<Rightarrow> parser_state" where
  "start_chunk tokens code =
     snd (advance (init_state\<lparr>p_code := code, p_chunks := [tokens], p_index := - 1, p_tokens := tokens\<rparr>))"

definition identifier_node :: "string \<Rightarrow> pyval" where
  "identifier_node n = Expression ''Identifier'' [(''this'', PStr n), (''quoted'', PBool False)]"

definition column_node :: "string \<Rightarrow> pyval" where
  "column_node n =
     Expression ''Column''
       [(''this'', identifier_node n), (''db'', PNone), (''table'', PNone), (''fields'', PNone)]"

definition number_node :: "string \<Rightarrow> pyval" where
  "number_node n = Expression ''Literal'' [(''this'', PStr n), (''is_string'', PBool False)]"

definition between_in_sql :: string where
  "between_in_sql = ''SELECT x FROM t WHERE a BETWEEN 1 AND 2 AND b IN (1,2,3)''"

definition between_in_tokens :: "token list" where
  "between_in_tokens =
     [tk ''SELECT'' ''SELECT'' 1, tk ''VAR'' ''x'' 8, tk ''FROM'' ''FROM'' 10, tk ''VAR'' ''t'' 15,
      tk ''WHERE'' ''WHERE'' 17, tk ''VAR'' ''a'' 23, tk ''BETWEEN'' ''BETWEEN'' 25,
      tk ''NUMBER'' ''1'' 33, tk ''AND'' ''AND'' 35, tk ''NUMBER'' ''2'' 39, tk ''AND'' ''AND'' 41,
      tk ''VAR'' ''b'' 45, tk ''IN'' ''IN'' 47, tk ''L_PAREN'' ''('' 50, tk ''NUMBER'' ''1'' 51,
      tk ''COMMA'' '','' 52, tk ''NUMBER'' ''2'' 53, tk ''COMMA'' '','' 54, tk ''NUMBER'' ''3'' 55,
      tk ''R_PAREN'' '')'' 56]"

definition between_in_where :: pyval where
  "between_in_where =
     Expression ''Where''
       [(''this'',
         Expression ''And''
           [(''this'',
             Expression ''Between''
               [(''this'', column_node ''a''), (''low'', number_node ''1''),
                (''high'', number_node ''2'')]),
            (''expression'',
             Expression ''In''
               [(''this'', column_node ''b''),
                (''expressions'', PList [number_node ''1'', number_node ''2'', number_node ''3''])])])]"

definition between_in_tree :: pyval where
  "between_in_tree =
     Expression ''Select''
       [(''hint'', PNone), (''distinct'', PBool False),
        (''expressions'', PList [column_node ''x'']),
        (''from'',
         Expression ''From''
           [(''expressions'',
             PList [Expression ''Table'' [(''this'', identifier_node ''t''), (''db'', PNone)]])]),
        (''laterals'', PList []), (''joins'', PList []),
        (''where'', between_in_where),
        (''group'', PNone), (''having'', PNone), (''order'', PNone), (''limit'', PNone)]"

definition if_four_sql :: string where
  "if_four_sql = ''IF(a > 0, a, b, c)''"

definition if_four_tokens :: "token list" where
  "if_four_tokens =
     [tk ''IF'' ''IF'' 1, tk ''L_PAREN'' ''('' 3, tk ''VAR'' ''a'' 4, tk ''GT'' ''>'' 6,
      tk ''NUMBER'' ''0'' 8, tk ''COMMA'' '','' 9, tk ''VAR'' ''a'' 11, tk ''COMMA'' '','' 12,
      tk ''VAR'' ''b'' 14, tk ''COMMA'' '','' 15, tk ''VAR'' ''c'' 17, tk ''R_PAREN'' '')'' 18]"

definition if_one_sql :: string where
  "if_one_sql = ''IF(a > 0)''"

definition if_one_tokens :: "token list" where
  "if_one_tokens =
     [tk ''IF'' ''IF'' 1, tk ''L_PAREN'' ''('' 3, tk ''VAR'' ''a'' 4, tk ''GT'' ''>'' 6,
      tk ''NUMBER'' ''0'' 8, tk ''R_PAREN'' '')'' 9]"

definition two_semicolons_tokens :: "token list" where
  "two_semicolons_tokens =
     [tk ''VAR'' ''a'' 1, tk ''SEMICOLON'' '';'' 2, tk ''SEMICOLON'' '';'' 3, tk ''VAR'' ''b'' 4]"

definition decimal_tokens :: "token list" where
  "decimal_tokens =
     [tk ''DECIMAL'' ''DECIMAL'' 1, tk ''L_PAREN'' ''('' 8, tk ''NUMBER'' ''10'' 9,
      tk ''COMMA'' '','' 11, tk ''NUMBER'' ''2'' 13, tk ''R_PAREN'' '')'' 14]"

definition lateral_sql :: string where
  "lateral_sql = ''SELECT a FROM t LATERAL VIEW x tbl''"

definition lateral_tokens :: "token list" where
  "lateral_tokens =
     [tk ''SELECT'' ''SELECT'' 1, tk ''VAR'' ''a'' 8, tk ''FROM'' ''FROM'' 10, tk ''VAR'' ''t'' 15,
      tk ''LATERAL'' ''LATERAL'' 17, tk ''VIEW'' ''VIEW'' 25, tk ''VAR'' ''x'' 30, tk ''VAR'' ''tbl'' 32]"

definition lateral_view_tokens :: "token list" where
  "lateral_view_tokens =
     [tk ''LATERAL'' ''LATERAL'' 1, tk ''VIEW'' ''VIEW'' 9, tk ''VAR'' ''x'' 14, tk ''VAR'' ''tbl'' 16]"

definition array_tokens :: "token list" where
  "array_tokens =
     [tk ''ARRAY'' ''ARRAY'' 1, tk ''L_BRACKET'' ''['' 6, tk ''NUMBER'' ''1'' 7, tk ''R_BRACKET'' '']'' 8]"

text \<open>
  The statements of a token list in the words of the specification: the runs of tokens
  between \<^verbatim>\<open>;\<close> tokens, of which the non-empty ones are counted.
\<close>

primrec statements_of :: "token list \<Rightarrow> token list list" where
  "statements_of [] = [[]]"
| "statements_of (t # ts) =
     (if token_type t = ''SEMICOLON'' then [] # statements_of ts
      else (case statements_of ts of [] \<Rightarrow> [[t]] | c # cs \<Rightarrow> (t # c) # cs))"

definition count_non_empty_statements :: "token list \<Rightarrow> nat" where
  "count_non_empty_statements ts = length (filter (\<lambda>c. c \<noteq> []) (statements_of ts))"

section \<open>Parent wiring\<close>

text \<open>
  A node of a tree is named by its position: the steps from the root, each the index of a
  slot in \<^verbatim>\<open>args\<close> and, for a slot that holds a list, the index in the list.
\<close>

type_synonym step = "nat \<times> nat option"
type_synonym path = "step list"

definition child :: "pyval \<Rightarrow> step \<Rightarrow> pyval option" where
  "child v st =
     (case v of
        Expression c args \<Rightarrow>
          (if fst st < length args then
             (case snd (args ! fst st) of
                PList vs \<Rightarrow>
                  (case snd st of
                     Some j \<Rightarrow> if j < length vs then Some (vs ! j) else None
                   | None \<Rightarrow> None)
              | x \<Rightarrow> (case snd st of None \<Rightarrow> Some x | Some j \<Rightarrow> None))
           else None)
      | _ \<Rightarrow> None)"

definition slot_key :: "pyval \<Rightarrow> step \<Rightarrow> string option" where
  "slot_key v st =
     (case v of
        Expression c args \<Rightarrow> if fst st < length args then Some (fst (args ! fst st)) else None
      | _ \<Rightarrow> None)"

primrec node_at :: "pyval \<Rightarrow> path \<Rightarrow> pyval option" where
  "node_at v [] = Some v"
| "node_at v (st # p) = (case child v st of None \<Rightarrow> None | Some c \<Rightarrow> node_at c p)"

text \<open>
  Modelled from the spec: \<^verbatim>\<open>Expression.walk\<close> of expressions.py, which is not part of the
  sources at hand.  It visits every node below the root once and yields, for every child
  reachable via a slot \<^verbatim>\<open>k\<close> (directly or in a list), the child, its holder and \<^verbatim>\<open>k\<close>;
  the root comes first, with no holder.
\<close>

datatype visit = Visit (v_node: path) (v_parent: "path option") (v_key: "string option")

fun walk :: "pyval \<Rightarrow> path \<Rightarrow> visit list"
  and walk_items :: "(string \<times> pyval) list \<Rightarrow> nat \<Rightarrow> path \<Rightarrow> visit list"
  and walk_list :: "pyval list \<Rightarrow> nat \<Rightarrow> nat \<Rightarrow> string \<Rightarrow> path \<Rightarrow> visit list" where
  "walk (Expression c args) p = walk_items args 0 p"
| "walk PNone p = []"
| "walk (PBool b) p = []"
| "walk (PStr x) p = []"
| "walk (PTok t) p = []"
| "walk (PEnum x) p = []"
| "walk (PList vs) p = []"
| "walk_items [] i p = []"
| "walk_items (kv # kvs) i p =
     (case snd kv of
        PList vs \<Rightarrow> walk_list vs i 0 (fst kv) p
      | v \<Rightarrow> Visit (p @ [(i, None)]) (Some p) (Some (fst kv)) # walk v (p @ [(i, None)]))
     @ walk_items kvs (i + 1) p"
| "walk_list [] i j k p = []"
| "walk_list (x # xs) i j k p =
     Visit (p @ [(i, Some j)]) (Some p) (Some k) # walk x (p @ [(i, Some j)])
     @ walk_list xs i (j + 1) k p"

text \<open>
  The loop at the end of \<^verbatim>\<open>parse\<close>: \<^verbatim>\<open>node.parent\<close> and \<^verbatim>\<open>node.arg_key\<close> of every node,
  both \<^verbatim>\<open>None\<close> after construction, are assigned for every visit of a node that has the
  attribute \<^verbatim>\<open>parent\<close> (an expression) and a holder.
\<close>

definition is_expression :: "pyval option \<Rightarrow> bool" where
  "is_expression v = (case v of Some (Expression c a) \<Rightarrow> True | _ \<Rightarrow> False)"

type_synonym attrs = "path \<Rightarrow> path option \<times> string option"

definition wire :: "pyval \<Rightarrow> attrs \<Rightarrow> visit \<Rightarrow> attrs" where
  "wire e m V =
     (if is_expression (node_at e (v_node V)) \<and> v_parent V \<noteq> None
      then m(v_node V := (v_parent V, v_key V)) else m)"

definition post_pass :: "pyval \<Rightarrow> attrs" where
  "post_pass e = foldl (wire e) (\<lambda>p. (None, None)) (Visit [] None None # walk e [])"

definition item_visits :: "visit \<Rightarrow> string \<times> pyval \<Rightarrow> nat \<Rightarrow> path \<Rightarrow> bool" where
  "item_visits V kv i p =
     (case snd kv of
        PList vs \<Rightarrow> V \<in> set (walk_list vs i 0 (fst kv) p)
      | v \<Rightarrow> V = Visit (p @ [(i, None)]) (Some p) (Some (fst kv)) \<or> V \<in> set (walk v (p @ [(i, None)])))"

definition eq_tokens :: "token list" where
  "eq_tokens = [tk ''VAR'' ''a'' 1, tk ''EQ'' ''='' 3, tk ''VAR'' ''a'' 5]"

definition eq_tree :: pyval where
  "eq_tree = Expression ''EQ'' [(''this'', column_node ''a''), (''expression'', column_node ''a'')]"

definition in_list_second :: path where
  "in_list_second = [(6, None), (0, None), (1, None), (1, Some 1)]"

section \<open>Invariants of the token view\<close>

text \<open>
  The window \<^verbatim>\<open>(prev, curr, next)\<close> is coherent when it shows the tokens around a
  non-negative index, as \<^verbatim>\<open>_advance\<close> leaves it.
\<close>

definition wf_window :: "parser_state \<Rightarrow> bool" where
  "wf_window s =
     (0 \<le> p_index s
      \<and> list_get (p_tokens s) (p_index s) = Inr (p_curr s)
      \<and> list_get (p_tokens s) (p_index s + 1) = Inr (p_next s)
      \<and> (if p_index s > 0 then list_get (p_tokens s) (p_index s - 1) = Inr (p_prev s)
          else p_prev s = None))"

text \<open>
  What a method may do to the token view: it keeps the tokens of the chunk, never moves
  the index back, and keeps a coherent window coherent.
\<close>

definition forward :: "parser_state \<Rightarrow> parser_state \<Rightarrow> bool" where
  "forward s s' =
     (p_tokens s' = p_tokens s \<and> p_index s \<le> p_index s' \<and> (wf_window s \<longrightarrow> wf_window s'))"

definition pres :: "'a M \<Rightarrow> bool" where
  "pres m = (\<forall>s. forward s (snd (m s)))"

text \<open>
  A deeper bound on the calls extends the outcome of a shallower one: where \<open>m\<close> does
  not run out of depth, \<open>m'\<close> does what \<open>m\<close> does.
\<close>

definition ext :: "'a M \<Rightarrow> 'a M \<Rightarrow> bool" where
  "ext m m' = (\<forall>s. fst (m s) \<noteq> Inl OutOfFuel \<longrightarrow> m' s = m s)"

section \<open>Properties\<close>

subsection \<open>Every method moves the token view forward\<close>

lemma forward_refl: "forward s s"
  by (simp add: forward_def)

lemma forward_trans: "forward s s1 \<Longrightarrow> forward s1 s2 \<Longrightarrow> forward s s2"
  by (auto simp: forward_def)

lemma pres_eqI: "(\<And>s. m s = m' s) \<Longrightarrow> pres m' \<Longrightarrow> pres m"
  by (simp add: pres_def)

lemma pres_ret: "pres (ret v)"
  by (simp add: pres_def ret_def forward_refl)

lemma pres_throw: "pres (throw e)"
  by (simp add: pres_def throw_def forward_refl)

lemma pres_lift: "pres (lift r)"
  by (simp add: pres_def lift_def forward_refl)

lemma pres_get: "pres get_curr" "pres get_next" "pres get_prev"
  by (simp_all add: pres_def get_curr_def get_next_def get_prev_def forward_refl)

lemma pres_bnd: "pres m \<Longrightarrow> (\<And>v. pres (f v)) \<Longrightarrow> pres (bnd m f)"
  unfolding pres_def bnd_def
proof (intro allI)
  fix s
  assume m: "\<forall>s. forward s (snd (m s))" and f: "\<And>v. \<forall>s. forward s (snd (f v s))"
  show "forward s (snd (case m s of (Inl e, s') \<Rightarrow> (Inl e, s') | (Inr v, s') \<Rightarrow> f v s'))"
  proof (cases "m s")
    case (Pair r s1)
    then have 1: "forward s s1" using m[rule_format, of s] by simp
    show ?thesis
    proof (cases r)
      case (Inl e)
      then show ?thesis using Pair 1 by simp
    next
      case (Inr v)
      then show ?thesis using Pair 1 f[of v, rule_format, of s1] by (auto intro: forward_trans)
    qed
  qed
qed

lemma pres_if: "pres a \<Longrightarrow> pres b \<Longrightarrow> pres (if c then a else b)"
  by simp


lemma pres_ifM: "pres c \<Longrightarrow> pres a \<Longrightarrow> pres b \<Longrightarrow> pres (ifM c a b)"
  by (rule pres_eqI[OF ifM_def]) (intro pres_bnd pres_if)

lemma pres_andM: "pres a \<Longrightarrow> pres b \<Longrightarrow> pres (andM a b)"
  by (rule pres_eqI[OF andM_def]) (intro pres_bnd pres_if pres_ret)

lemma pres_orM: "pres a \<Longrightarrow> pres b \<Longrightarrow> pres (orM a b)"
  by (rule pres_eqI[OF orM_def]) (intro pres_bnd pres_if pres_ret)

lemma pres_unlessM: "pres c \<Longrightarrow> pres a \<Longrightarrow> pres (unlessM c a)"
  by (rule pres_eqI[OF unlessM_def]) (intro pres_bnd pres_if pres_ret)

lemma pres_pybool: "pres m \<Longrightarrow> pres (pybool m)"
  by (rule pres_eqI[OF pybool_def]) (intro pres_bnd pres_ret)

lemma pres_case_option: "pres a \<Longrightarrow> (\<And>x. pres (f x)) \<Longrightarrow> pres (case v of None \<Rightarrow> a | Some x \<Rightarrow> f x)"
  by (cases v) auto

lemma pres_case_prod: "(\<And>a b. pres (f a b)) \<Longrightarrow> pres (case p of (a, b) \<Rightarrow> f a b)"
  by (cases p) auto

lemma pres_case_pyval:
  "pres a \<Longrightarrow> (\<And>x. pres (b x)) \<Longrightarrow> (\<And>x. pres (c x)) \<Longrightarrow> (\<And>x. pres (d x)) \<Longrightarrow> (\<And>x. pres (e x))
   \<Longrightarrow> (\<And>x. pres (f x)) \<Longrightarrow> (\<And>x y. pres (g x y))
   \<Longrightarrow> pres (case v of PNone \<Rightarrow> a | PBool x \<Rightarrow> b x | PStr x \<Rightarrow> c x | PTok x \<Rightarrow> d x | PEnum x \<Rightarrow> e x
                | PList x \<Rightarrow> f x | Expression x y \<Rightarrow> g x y)"
  by (cases v) auto

lemma pres_for_each: "(\<And>x. pres (f x)) \<Longrightarrow> pres (for_each xs f)"
proof (induction xs)
  case Nil
  show ?case by (rule pres_eqI[OF for_each.simps(1)]) (rule pres_ret)
next
  case (Cons x xs)
  show ?case by (rule pres_eqI[OF for_each.simps(2)]) (intro pres_bnd Cons)
qed

lemma pres_raise_error: "pres (raise_error cfg msg tok)"
  by (auto simp: pres_def raise_error_def forward_def Let_def wf_window_def split: sum.splits option.splits)

lemma pres_advance: "pres advance"
  by (auto simp: pres_def advance_def forward_def Let_def bnd_def lift_def wf_window_def list_get_def
      split: sum.splits if_splits)

lemma pres_match: "pres (match types)"
  unfolding pres_def
proof
  fix s
  show "forward s (snd (match types s))"
  proof (cases "p_curr s")
    case None
    then show ?thesis by (simp add: match_def forward_refl)
  next
    case (Some c)
    have "pres (bnd advance (\<lambda>_ s'. (Inr (opt_val (p_prev s')), s')))"
      by (intro pres_bnd pres_advance) (simp add: pres_def forward_refl)
    then show ?thesis using Some by (simp add: match_def forward_refl pres_def)
  qed
qed

lemma pres_validate_expression: "pres (validate_expression cfg e)"
  apply (rule pres_eqI[OF validate_expression_def])
  apply (intro pres_ret pres_case_pyval pres_throw pres_bnd pres_for_each pres_if
      pres_raise_error pres_case_prod)
  done

lemma pres_expression: "pres (expression cfg cls kwargs)"
  apply (rule pres_eqI[OF expression_def])
  unfolding Let_def
  apply (intro pres_bnd pres_validate_expression pres_ret)
  done

lemmas pres_intros = pres_ret pres_throw pres_lift pres_get pres_bnd pres_if pres_ifM pres_andM pres_orM
  pres_unlessM pres_pybool pres_case_option pres_case_prod pres_case_pyval pres_raise_error pres_match
  pres_advance pres_expression pres_validate_expression

lemma pres_column_def_parse_option: "pres m \<Longrightarrow> pres (column_def_parse_option options option m)"
  by (rule pres_eqI[OF column_def_parse_option_def], (unfold Let_def)?) (intro pres_intros | assumption)+

lemma pres_create_parse_option: "pres m \<Longrightarrow> pres (create_parse_option options option tok m)"
  by (rule pres_eqI[OF create_parse_option_def], (unfold Let_def)?) (intro pres_intros | assumption)+

lemma pres_parse_id_var: "pres parse_id_var"
  by (rule pres_eqI[OF parse_id_var_def], (unfold Let_def)?)
    (intro pres_intros pres_column_def_parse_option pres_create_parse_option | assumption)+

lemma pres_parse_csv_loop: "(\<And>c. pres (rec c)) \<Longrightarrow> pres (parse_csv_loop rec p items)"
  by (rule pres_eqI[OF parse_csv_loop_def], (unfold Let_def)?)
    (intro pres_intros pres_column_def_parse_option pres_create_parse_option | assumption)+

lemma pres_parse_csv: "(\<And>c. pres (rec c)) \<Longrightarrow> pres (parse_csv rec p)"
  by (rule pres_eqI[OF parse_csv_def], (unfold Let_def)?)
    (intro pres_intros pres_column_def_parse_option pres_create_parse_option | assumption)+

lemma pres_parse_tokens_loop: "(\<And>c. pres (rec c)) \<Longrightarrow> pres (parse_tokens_loop cfg rec p expressions this)"
  by (rule pres_eqI[OF parse_tokens_loop_def], (unfold Let_def)?)
    (intro pres_intros pres_column_def_parse_option pres_create_parse_option | assumption)+

lemma pres_parse_tokens: "(\<And>c. pres (rec c)) \<Longrightarrow> pres (parse_tokens rec p expressions)"
  by (rule pres_eqI[OF parse_tokens_def], (unfold Let_def)?)
    (intro pres_intros pres_column_def_parse_option pres_create_parse_option | assumption)+

lemma pres_parse_alias: "(\<And>c. pres (rec c)) \<Longrightarrow> pres (parse_alias cfg rec this)"
  by (rule pres_eqI[OF parse_alias_def], (unfold Let_def)?)
    (intro pres_intros pres_column_def_parse_option pres_create_parse_option | assumption)+

lemma pres_parse_dot: "(\<And>c. pres (rec c)) \<Longrightarrow> pres (parse_dot cfg rec this)"
  by (rule pres_eqI[OF parse_dot_def], (unfold Let_def)?)
    (intro pres_intros pres_column_def_parse_option pres_create_parse_option | assumption)+

lemma pres_parse_brackets: "(\<And>c. pres (rec c)) \<Longrightarrow> pres (parse_brackets cfg rec this)"
  by (rule pres_eqI[OF parse_brackets_def], (unfold Let_def)?)
    (intro pres_intros pres_column_def_parse_option pres_create_parse_option | assumption)+

lemma pres_parse_expression: "(\<And>c. pres (rec c)) \<Longrightarrow> pres (parse_expression rec)"
  by (rule pres_eqI[OF parse_expression_def], (unfold Let_def)?)
    (intro pres_intros pres_column_def_parse_option pres_create_parse_option | assumption)+

lemma pres_parse_conjunction: "(\<And>c. pres (rec c)) \<Longrightarrow> pres (parse_conjunction rec)"
  by (rule pres_eqI[OF parse_conjunction_def], (unfold Let_def)?)
    (intro pres_intros pres_column_def_parse_option pres_create_parse_option | assumption)+

lemma pres_parse_equality: "(\<And>c. pres (rec c)) \<Longrightarrow> pres (parse_equality rec)"
  by (rule pres_eqI[OF parse_equality_def], (unfold Let_def)?)
    (intro pres_intros pres_column_def_parse_option pres_create_parse_option | assumption)+

lemma pres_parse_comparison: "(\<And>c. pres (rec c)) \<Longrightarrow> pres (parse_comparison rec)"
  by (rule pres_eqI[OF parse_comparison_def], (unfold Let_def)?)
    (intro pres_intros pres_column_def_parse_option pres_create_parse_option | assumption)+

lemma pres_parse_range: "(\<And>c. pres (rec c)) \<Longrightarrow> pres (parse_range cfg rec)"
  by (rule pres_eqI[OF parse_range_def], (unfold Let_def)?)
    (intro pres_intros pres_column_def_parse_option pres_create_parse_option | assumption)+

lemma pres_parse_bitwise: "(\<And>c. pres (rec c)) \<Longrightarrow> pres (parse_bitwise rec)"
  by (rule pres_eqI[OF parse_bitwise_def], (unfold Let_def)?)
    (intro pres_intros pres_column_def_parse_option pres_create_parse_option | assumption)+

lemma pres_parse_term: "(\<And>c. pres (rec c)) \<Longrightarrow> pres (parse_term rec)"
  by (rule pres_eqI[OF parse_term_def], (unfold Let_def)?)
    (intro pres_intros pres_column_def_parse_option pres_create_parse_option | assumption)+

lemma pres_parse_factor: "(\<And>c. pres (rec c)) \<Longrightarrow> pres (parse_factor rec)"
  by (rule pres_eqI[OF parse_factor_def], (unfold Let_def)?)
    (intro pres_intros pres_column_def_parse_option pres_create_parse_option | assumption)+

lemma pres_parse_unary: "(\<And>c. pres (rec c)) \<Longrightarrow> pres (parse_unary cfg rec)"
  by (rule pres_eqI[OF parse_unary_def], (unfold Let_def)?)
    (intro pres_intros pres_column_def_parse_option pres_create_parse_option | assumption)+

lemma pres_parse_type: "(\<And>c. pres (rec c)) \<Longrightarrow> pres (parse_type cfg rec)"
  by (rule pres_eqI[OF parse_type_def], (unfold Let_def)?)
    (intro pres_intros pres_column_def_parse_option pres_create_parse_option | assumption)+

lemma pres_parse_types: "(\<And>c. pres (rec c)) \<Longrightarrow> pres (parse_types rec)"
  by (rule pres_eqI[OF parse_types_def], (unfold Let_def)?)
    (intro pres_intros pres_column_def_parse_option pres_create_parse_option | assumption)+

lemma pres_parse_column_def_loop: "(\<And>c. pres (rec c)) \<Longrightarrow> pres (parse_column_def_loop cfg rec this kind options)"
  by (rule pres_eqI[OF parse_column_def_loop_def], (unfold Let_def)?)
    (intro pres_intros pres_column_def_parse_option pres_create_parse_option | assumption)+

lemma pres_parse_column_def: "(\<And>c. pres (rec c)) \<Longrightarrow> pres (parse_column_def rec this)"
  by (rule pres_eqI[OF parse_column_def_def], (unfold Let_def)?)
    (intro pres_intros pres_column_def_parse_option pres_create_parse_option | assumption)+

lemma pres_parse_primary: "(\<And>c. pres (rec c)) \<Longrightarrow> pres (parse_primary cfg rec)"
  by (rule pres_eqI[OF parse_primary_def], (unfold Let_def)?)
    (intro pres_intros pres_column_def_parse_option pres_create_parse_option | assumption)+

lemma pres_parse_column_loop: "(\<And>c. pres (rec c)) \<Longrightarrow> pres (parse_column_loop cfg rec this table db flds)"
  by (rule pres_eqI[OF parse_column_loop_def], (unfold Let_def)?)
    (intro pres_intros pres_column_def_parse_option pres_create_parse_option | assumption)+

lemma pres_parse_column: "(\<And>c. pres (rec c)) \<Longrightarrow> pres (parse_column rec)"
  by (rule pres_eqI[OF parse_column_def], (unfold Let_def)?)
    (intro pres_intros pres_column_def_parse_option pres_create_parse_option | assumption)+

lemma pres_parse_function: "(\<And>c. pres (rec c)) \<Longrightarrow> pres (parse_function cfg rec this schema)"
  by (rule pres_eqI[OF parse_function_def], (unfold Let_def)?)
    (intro pres_intros pres_column_def_parse_option pres_create_parse_option | assumption)+

lemma pres_parse_case_loop: "(\<And>c. pres (rec c)) \<Longrightarrow> pres (parse_case_loop cfg rec expr ifs)"
  by (rule pres_eqI[OF parse_case_loop_def], (unfold Let_def)?)
    (intro pres_intros pres_column_def_parse_option pres_create_parse_option | assumption)+

lemma pres_parse_case: "(\<And>c. pres (rec c)) \<Longrightarrow> pres (parse_case rec)"
  by (rule pres_eqI[OF parse_case_def], (unfold Let_def)?)
    (intro pres_intros pres_column_def_parse_option pres_create_parse_option | assumption)+

lemma pres_parse_count: "(\<And>c. pres (rec c)) \<Longrightarrow> pres (parse_count cfg rec)"
  by (rule pres_eqI[OF parse_count_def], (unfold Let_def)?)
    (intro pres_intros pres_column_def_parse_option pres_create_parse_option | assumption)+

lemma pres_parse_extract: "(\<And>c. pres (rec c)) \<Longrightarrow> pres (parse_extract cfg rec)"
  by (rule pres_eqI[OF parse_extract_def], (unfold Let_def)?)
    (intro pres_intros pres_column_def_parse_option pres_create_parse_option | assumption)+

lemma pres_parse_cast: "(\<And>c. pres (rec c)) \<Longrightarrow> pres (parse_cast cfg rec)"
  by (rule pres_eqI[OF parse_cast_def], (unfold Let_def)?)
    (intro pres_intros pres_column_def_parse_option pres_create_parse_option | assumption)+

lemma pres_parse_window_spec: "(\<And>c. pres (rec c)) \<Longrightarrow> pres (parse_window_spec rec)"
  by (rule pres_eqI[OF parse_window_spec_def], (unfold Let_def)?)
    (intro pres_intros pres_column_def_parse_option pres_create_parse_option | assumption)+

lemma pres_parse_window: "(\<And>c. pres (rec c)) \<Longrightarrow> pres (parse_window cfg rec this)"
  by (rule pres_eqI[OF parse_window_def], (unfold Let_def)?)
    (intro pres_intros pres_column_def_parse_option pres_create_parse_option | assumption)+

lemma pres_parse_hint: "(\<And>c. pres (rec c)) \<Longrightarrow> pres (parse_hint cfg rec)"
  by (rule pres_eqI[OF parse_hint_def], (unfold Let_def)?)
    (intro pres_intros pres_column_def_parse_option pres_create_parse_option | assumption)+

lemma pres_parse_from: "(\<And>c. pres (rec c)) \<Longrightarrow> pres (parse_from cfg rec)"
  by (rule pres_eqI[OF parse_from_def], (unfold Let_def)?)
    (intro pres_intros pres_column_def_parse_option pres_create_parse_option | assumption)+

lemma pres_parse_laterals_loop: "(\<And>c. pres (rec c)) \<Longrightarrow> pres (parse_laterals_loop cfg rec laterals columns)"
  by (rule pres_eqI[OF parse_laterals_loop_def], (unfold Let_def)?)
    (intro pres_intros pres_column_def_parse_option pres_create_parse_option | assumption)+

lemma pres_parse_laterals: "(\<And>c. pres (rec c)) \<Longrightarrow> pres (parse_laterals rec)"
  by (rule pres_eqI[OF parse_laterals_def], (unfold Let_def)?)
    (intro pres_intros pres_column_def_parse_option pres_create_parse_option | assumption)+

lemma pres_parse_joins_loop: "(\<And>c. pres (rec c)) \<Longrightarrow> pres (parse_joins_loop cfg rec joins)"
  by (rule pres_eqI[OF parse_joins_loop_def], (unfold Let_def)?)
    (intro pres_intros pres_column_def_parse_option pres_create_parse_option | assumption)+

lemma pres_parse_joins: "(\<And>c. pres (rec c)) \<Longrightarrow> pres (parse_joins rec)"
  by (rule pres_eqI[OF parse_joins_def], (unfold Let_def)?)
    (intro pres_intros pres_column_def_parse_option pres_create_parse_option | assumption)+

lemma pres_parse_where: "(\<And>c. pres (rec c)) \<Longrightarrow> pres (parse_where cfg rec)"
  by (rule pres_eqI[OF parse_where_def], (unfold Let_def)?)
    (intro pres_intros pres_column_def_parse_option pres_create_parse_option | assumption)+

lemma pres_parse_group: "(\<And>c. pres (rec c)) \<Longrightarrow> pres (parse_group cfg rec)"
  by (rule pres_eqI[OF parse_group_def], (unfold Let_def)?)
    (intro pres_intros pres_column_def_parse_option pres_create_parse_option | assumption)+

lemma pres_parse_having: "(\<And>c. pres (rec c)) \<Longrightarrow> pres (parse_having cfg rec)"
  by (rule pres_eqI[OF parse_having_def], (unfold Let_def)?)
    (intro pres_intros pres_column_def_parse_option pres_create_parse_option | assumption)+

lemma pres_parse_order: "(\<And>c. pres (rec c)) \<Longrightarrow> pres (parse_order cfg rec)"
  by (rule pres_eqI[OF parse_order_def], (unfold Let_def)?)
    (intro pres_intros pres_column_def_parse_option pres_create_parse_option | assumption)+

lemma pres_parse_ordered: "(\<And>c. pres (rec c)) \<Longrightarrow> pres (parse_ordered cfg rec)"
  by (rule pres_eqI[OF parse_ordered_def], (unfold Let_def)?)
    (intro pres_intros pres_column_def_parse_option pres_create_parse_option | assumption)+

lemma pres_parse_limit: "pres (parse_limit cfg)"
  by (rule pres_eqI[OF parse_limit_def], (unfold Let_def)?)
    (intro pres_intros pres_column_def_parse_option pres_create_parse_option | assumption)+

lemma pres_parse_union: "(\<And>c. pres (rec c)) \<Longrightarrow> pres (parse_union cfg rec this)"
  by (rule pres_eqI[OF parse_union_def], (unfold Let_def)?)
    (intro pres_intros pres_column_def_parse_option pres_create_parse_option | assumption)+

lemma pres_parse_unnest: "(\<And>c. pres (rec c)) \<Longrightarrow> pres (parse_unnest cfg rec)"
  by (rule pres_eqI[OF parse_unnest_def], (unfold Let_def)?)
    (intro pres_intros pres_column_def_parse_option pres_create_parse_option | assumption)+

lemma pres_parse_table: "(\<And>c. pres (rec c)) \<Longrightarrow> pres (parse_table cfg rec alias schema)"
  by (rule pres_eqI[OF parse_table_def], (unfold Let_def)?)
    (intro pres_intros pres_column_def_parse_option pres_create_parse_option | assumption)+

lemma pres_parse_value: "(\<And>c. pres (rec c)) \<Longrightarrow> pres (parse_value cfg rec)"
  by (rule pres_eqI[OF parse_value_def], (unfold Let_def)?)
    (intro pres_intros pres_column_def_parse_option pres_create_parse_option | assumption)+

lemma pres_parse_values: "(\<And>c. pres (rec c)) \<Longrightarrow> pres (parse_values cfg rec)"
  by (rule pres_eqI[OF parse_values_def], (unfold Let_def)?)
    (intro pres_intros pres_column_def_parse_option pres_create_parse_option | assumption)+

lemma pres_parse_select: "(\<And>c. pres (rec c)) \<Longrightarrow> pres (parse_select cfg rec)"
  by (rule pres_eqI[OF parse_select_def], (unfold Let_def)?)
    (intro pres_intros pres_column_def_parse_option pres_create_parse_option | assumption)+

lemma pres_parse_cte_loop: "(\<And>c. pres (rec c)) \<Longrightarrow> pres (parse_cte_loop cfg rec expressions)"
  by (rule pres_eqI[OF parse_cte_loop_def], (unfold Let_def)?)
    (intro pres_intros pres_column_def_parse_option pres_create_parse_option | assumption)+

lemma pres_parse_cte: "(\<And>c. pres (rec c)) \<Longrightarrow> pres (parse_cte rec)"
  by (rule pres_eqI[OF parse_cte_def], (unfold Let_def)?)
    (intro pres_intros pres_column_def_parse_option pres_create_parse_option | assumption)+

lemma pres_parse_exists: "pres (parse_exists not_arg)"
  by (rule pres_eqI[OF parse_exists_def], (unfold Let_def)?)
    (intro pres_intros pres_column_def_parse_option pres_create_parse_option | assumption)+

lemma pres_parse_drop: "(\<And>c. pres (rec c)) \<Longrightarrow> pres (parse_drop cfg rec)"
  by (rule pres_eqI[OF parse_drop_def], (unfold Let_def)?)
    (intro pres_intros pres_column_def_parse_option pres_create_parse_option | assumption)+

lemma pres_parse_create_loop: "(\<And>c. pres (rec c)) \<Longrightarrow> pres (parse_create_loop cfg rec kwargs options)"
  by (rule pres_eqI[OF parse_create_loop_def], (unfold Let_def)?)
    (intro pres_intros pres_column_def_parse_option pres_create_parse_option | assumption)+

lemma pres_parse_create: "(\<And>c. pres (rec c)) \<Longrightarrow> pres (parse_create cfg rec)"
  by (rule pres_eqI[OF parse_create_def], (unfold Let_def)?)
    (intro pres_intros pres_column_def_parse_option pres_create_parse_option | assumption)+

lemma pres_parse_insert: "(\<And>c. pres (rec c)) \<Longrightarrow> pres (parse_insert cfg rec)"
  by (rule pres_eqI[OF parse_insert_def], (unfold Let_def)?)
    (intro pres_intros pres_column_def_parse_option pres_create_parse_option | assumption)+

lemma pres_parse_update: "(\<And>c. pres (rec c)) \<Longrightarrow> pres (parse_update cfg rec)"
  by (rule pres_eqI[OF parse_update_def], (unfold Let_def)?)
    (intro pres_intros pres_column_def_parse_option pres_create_parse_option | assumption)+

lemma pres_parse_statement: "(\<And>c. pres (rec c)) \<Longrightarrow> pres (parse_statement rec)"
  by (rule pres_eqI[OF parse_statement_def], (unfold Let_def)?)
    (intro pres_intros pres_column_def_parse_option pres_create_parse_option | assumption)+

lemma pres_dispatch: "(\<And>c. pres (rec c)) \<Longrightarrow> pres (dispatch cfg rec c)"
  by (rule pres_eqI[OF dispatch_def], cases c)
    (simp_all add: pres_parse_id_var pres_parse_csv_loop pres_parse_csv pres_parse_tokens_loop pres_parse_tokens pres_parse_alias pres_parse_dot pres_parse_brackets pres_parse_expression pres_parse_conjunction pres_parse_equality pres_parse_comparison pres_parse_range pres_parse_bitwise pres_parse_term pres_parse_factor pres_parse_unary pres_parse_type pres_parse_types pres_parse_column_def_loop pres_parse_column_def pres_parse_primary pres_parse_column_loop pres_parse_column pres_parse_function pres_parse_case_loop pres_parse_case pres_parse_count pres_parse_extract pres_parse_cast pres_parse_window_spec pres_parse_window pres_parse_hint pres_parse_from pres_parse_laterals_loop pres_parse_laterals pres_parse_joins_loop pres_parse_joins pres_parse_where pres_parse_group pres_parse_having pres_parse_order pres_parse_ordered pres_parse_limit pres_parse_union pres_parse_unnest pres_parse_table pres_parse_value pres_parse_values pres_parse_select pres_parse_cte_loop pres_parse_cte pres_parse_exists pres_parse_drop pres_parse_create_loop pres_parse_create pres_parse_insert pres_parse_update pres_parse_statement)

lemma pres_run: "pres (run cfg n c)"
proof (induction n arbitrary: c)
  case 0
  show ?case by (rule pres_eqI[OF run.simps(1)]) (rule pres_throw)
next
  case (Suc n)
  show ?case by (rule pres_eqI[OF run.simps(2)]) (rule pres_dispatch, rule Suc)
qed

subsection \<open>The outcome does not depend on the bound on the depth of calls\<close>

lemma ext_refl: "ext m m"
  by (simp add: ext_def)

lemma ext_trans: "ext a b \<Longrightarrow> ext b c \<Longrightarrow> ext a c"
  by (simp add: ext_def)

lemma ext_eqI: "(\<And>s. m s = a s) \<Longrightarrow> (\<And>s. m' s = b s) \<Longrightarrow> ext a b \<Longrightarrow> ext m m'"
  by (simp add: ext_def)

lemma ext_bnd: "ext m m' \<Longrightarrow> (\<And>v. ext (f v) (f' v)) \<Longrightarrow> ext (bnd m f) (bnd m' f')"
  unfolding ext_def
proof (intro allI impI)
  fix s
  assume m: "\<forall>s. fst (m s) \<noteq> Inl OutOfFuel \<longrightarrow> m' s = m s"
    and f: "\<And>v. \<forall>s. fst (f v s) \<noteq> Inl OutOfFuel \<longrightarrow> f' v s = f v s"
    and r: "fst (bnd m f s) \<noteq> Inl OutOfFuel"
  obtain x s1 where ms: "m s = (x, s1)" by (cases "m s")
  show "bnd m' f' s = bnd m f s"
  proof (cases x)
    case (Inl e)
    with r ms have "fst (m s) \<noteq> Inl OutOfFuel" by (simp add: bnd_def)
    with m have "m' s = m s" by simp
    then show ?thesis using ms Inl by (simp add: bnd_def)
  next
    case (Inr v)
    with ms have "fst (m s) \<noteq> Inl OutOfFuel" by simp
    with m have m': "m' s = m s" by simp
    from r ms Inr have "fst (f v s1) \<noteq> Inl OutOfFuel" by (simp add: bnd_def)
    with f have "f' v s1 = f v s1" by simp
    then show ?thesis using m' ms Inr by (simp add: bnd_def)
  qed
qed

lemma ext_if: "ext a a' \<Longrightarrow> ext b b' \<Longrightarrow> ext (if c then a else b) (if c then a' else b')"
  by simp

lemma ext_ifM: "ext c c' \<Longrightarrow> ext a a' \<Longrightarrow> ext b b' \<Longrightarrow> ext (ifM c a b) (ifM c' a' b')"
  by (rule ext_eqI[OF ifM_def ifM_def]) (intro ext_bnd ext_if)

lemma ext_andM: "ext a a' \<Longrightarrow> ext b b' \<Longrightarrow> ext (andM a b) (andM a' b')"
  by (rule ext_eqI[OF andM_def andM_def]) (intro ext_bnd ext_if ext_refl)

lemma ext_orM: "ext a a' \<Longrightarrow> ext b b' \<Longrightarrow> ext (orM a b) (orM a' b')"
  by (rule ext_eqI[OF orM_def orM_def]) (intro ext_bnd ext_if ext_refl)

lemma ext_case_option:
  "ext a a' \<Longrightarrow> (\<And>x. ext (f x) (f' x)) \<Longrightarrow>
   ext (case v of None \<Rightarrow> a | Some x \<Rightarrow> f x) (case v of None \<Rightarrow> a' | Some x \<Rightarrow> f' x)"
  by (cases v) auto

lemma ext_case_prod:
  "(\<And>a b. ext (f a b) (f' a b)) \<Longrightarrow> ext (case p of (a, b) \<Rightarrow> f a b) (case p of (a, b) \<Rightarrow> f' a b)"
  by (cases p) auto

lemma ext_case_pyval:
  "ext a a' \<Longrightarrow> (\<And>x. ext (b x) (b' x)) \<Longrightarrow> (\<And>x. ext (c x) (c' x)) \<Longrightarrow> (\<And>x. ext (d x) (d' x))
   \<Longrightarrow> (\<And>x. ext (e x) (e' x)) \<Longrightarrow> (\<And>x. ext (f x) (f' x)) \<Longrightarrow> (\<And>x y. ext (g x y) (g' x y))
   \<Longrightarrow> ext (case v of PNone \<Rightarrow> a | PBool x \<Rightarrow> b x | PStr x \<Rightarrow> c x | PTok x \<Rightarrow> d x | PEnum x \<Rightarrow> e x
                | PList x \<Rightarrow> f x | Expression x y \<Rightarrow> g x y)
           (case v of PNone \<Rightarrow> a' | PBool x \<Rightarrow> b' x | PStr x \<Rightarrow> c' x | PTok x \<Rightarrow> d' x | PEnum x \<Rightarrow> e' x
                | PList x \<Rightarrow> f' x | Expression x y \<Rightarrow> g' x y)"
  by (cases v) auto

lemmas ext_intros = ext_refl ext_bnd ext_if ext_ifM ext_andM ext_orM ext_case_option ext_case_prod
  ext_case_pyval

lemma ext_parse_csv_loop:
  "(\<And>c. ext (rec c) (rec' c)) \<Longrightarrow> ext (parse_csv_loop rec p items) (parse_csv_loop rec' p items)"
  by (rule ext_eqI[OF parse_csv_loop_def parse_csv_loop_def], (unfold Let_def)?) (intro ext_intros | assumption)+

lemma ext_parse_csv:
  "(\<And>c. ext (rec c) (rec' c)) \<Longrightarrow> ext (parse_csv rec p) (parse_csv rec' p)"
  by (rule ext_eqI[OF parse_csv_def parse_csv_def], (unfold Let_def)?) (intro ext_intros | assumption)+

lemma ext_parse_tokens_loop:
  "(\<And>c. ext (rec c) (rec' c)) \<Longrightarrow> ext (parse_tokens_loop cfg rec p expressions this) (parse_tokens_loop cfg rec' p expressions this)"
  by (rule ext_eqI[OF parse_tokens_loop_def parse_tokens_loop_def], (unfold Let_def)?) (intro ext_intros | assumption)+

lemma ext_parse_tokens:
  "(\<And>c. ext (rec c) (rec' c)) \<Longrightarrow> ext (parse_tokens rec p expressions) (parse_tokens rec' p expressions)"
  by (rule ext_eqI[OF parse_tokens_def parse_tokens_def], (unfold Let_def)?) (intro ext_intros | assumption)+

lemma ext_parse_alias:
  "(\<And>c. ext (rec c) (rec' c)) \<Longrightarrow> ext (parse_alias cfg rec this) (parse_alias cfg rec' this)"
  by (rule ext_eqI[OF parse_alias_def parse_alias_def], (unfold Let_def)?) (intro ext_intros | assumption)+

lemma ext_parse_dot:
  "(\<And>c. ext (rec c) (rec' c)) \<Longrightarrow> ext (parse_dot cfg rec this) (parse_dot cfg rec' this)"
  by (rule ext_eqI[OF parse_dot_def parse_dot_def], (unfold Let_def)?) (intro ext_intros | assumption)+

lemma ext_parse_brackets:
  "(\<And>c. ext (rec c) (rec' c)) \<Longrightarrow> ext (parse_brackets cfg rec this) (parse_brackets cfg rec' this)"
  by (rule ext_eqI[OF parse_brackets_def parse_brackets_def], (unfold Let_def)?) (intro ext_intros | assumption)+

lemma ext_parse_expression:
  "(\<And>c. ext (rec c) (rec' c)) \<Longrightarrow> ext (parse_expression rec) (parse_expression rec')"
  by (rule ext_eqI[OF parse_expression_def parse_expression_def], (unfold Let_def)?) (intro ext_intros | assumption)+

lemma ext_parse_conjunction:
  "(\<And>c. ext (rec c) (rec' c)) \<Longrightarrow> ext (parse_conjunction rec) (parse_conjunction rec')"
  by (rule ext_eqI[OF parse_conjunction_def parse_conjunction_def], (unfold Let_def)?) (intro ext_intros | assumption)+

lemma ext_parse_equality:
  "(\<And>c. ext (rec c) (rec' c)) \<Longrightarrow> ext (parse_equality rec) (parse_equality rec')"
  by (rule ext_eqI[OF parse_equality_def parse_equality_def], (unfold Let_def)?) (intro ext_intros | assumption)+

lemma ext_parse_comparison:
  "(\<And>c. ext (rec c) (rec' c)) \<Longrightarrow> ext (parse_comparison rec) (parse_comparison rec')"
  by (rule ext_eqI[OF parse_comparison_def parse_comparison_def], (unfold Let_def)?) (intro ext_intros | assumption)+

lemma ext_parse_range:
  "(\<And>c. ext (rec c) (rec' c)) \<Longrightarrow> ext (parse_range cfg rec) (parse_range cfg rec')"
  by (rule ext_eqI[OF parse_range_def parse_range_def], (unfold Let_def)?) (intro ext_intros | assumption)+

lemma ext_parse_bitwise:
  "(\<And>c. ext (rec c) (rec' c)) \<Longrightarrow> ext (parse_bitwise rec) (parse_bitwise rec')"
  by (rule ext_eqI[OF parse_bitwise_def parse_bitwise_def], (unfold Let_def)?) (intro ext_intros | assumption)+

lemma ext_parse_term:
  "(\<And>c. ext (rec c) (rec' c)) \<Longrightarrow> ext (parse_term rec) (parse_term rec')"
  by (rule ext_eqI[OF parse_term_def parse_term_def], (unfold Let_def)?) (intro ext_intros | assumption)+

lemma ext_parse_factor:
  "(\<And>c. ext (rec c) (rec' c)) \<Longrightarrow> ext (parse_factor rec) (parse_factor rec')"
  by (rule ext_eqI[OF parse_factor_def parse_factor_def], (unfold Let_def)?) (intro ext_intros | assumption)+

lemma ext_parse_unary:
  "(\<And>c. ext (rec c) (rec' c)) \<Longrightarrow> ext (parse_unary cfg rec) (parse_unary cfg rec')"
  by (rule ext_eqI[OF parse_unary_def parse_unary_def], (unfold Let_def)?) (intro ext_intros | assumption)+

lemma ext_parse_type:
  "(\<And>c. ext (rec c) (rec' c)) \<Longrightarrow> ext (parse_type cfg rec) (parse_type cfg rec')"
  by (rule ext_eqI[OF parse_type_def parse_type_def], (unfold Let_def)?) (intro ext_intros | assumption)+

lemma ext_parse_types:
  "(\<And>c. ext (rec c) (rec' c)) \<Longrightarrow> ext (parse_types rec) (parse_types rec')"
  by (rule ext_eqI[OF parse_types_def parse_types_def], (unfold Let_def)?) (intro ext_intros | assumption)+

lemma ext_parse_column_def_loop:
  "(\<And>c. ext (rec c) (rec' c)) \<Longrightarrow> ext (parse_column_def_loop cfg rec this kind options) (parse_column_def_loop cfg rec' this kind options)"
  by (rule ext_eqI[OF parse_column_def_loop_def parse_column_def_loop_def], (unfold Let_def)?) (intro ext_intros | assumption)+

lemma ext_parse_column_def:
  "(\<And>c. ext (rec c) (rec' c)) \<Longrightarrow> ext (parse_column_def rec this) (parse_column_def rec' this)"
  by (rule ext_eqI[OF parse_column_def_def parse_column_def_def], (unfold Let_def)?) (intro ext_intros | assumption)+

lemma ext_parse_primary:
  "(\<And>c. ext (rec c) (rec' c)) \<Longrightarrow> ext (parse_primary cfg rec) (parse_primary cfg rec')"
  by (rule ext_eqI[OF parse_primary_def parse_primary_def], (unfold Let_def)?) (intro ext_intros | assumption)+

lemma ext_parse_column_loop:
  "(\<And>c. ext (rec c) (rec' c)) \<Longrightarrow> ext (parse_column_loop cfg rec this table db flds) (parse_column_loop cfg rec' this table db flds)"
  by (rule ext_eqI[OF parse_column_loop_def parse_column_loop_def], (unfold Let_def)?) (intro ext_intros | assumption)+

lemma ext_parse_column:
  "(\<And>c. ext (rec c) (rec' c)) \<Longrightarrow> ext (parse_column rec) (parse_column rec')"
  by (rule ext_eqI[OF parse_column_def parse_column_def], (unfold Let_def)?) (intro ext_intros | assumption)+

lemma ext_parse_function:
  "(\<And>c. ext (rec c) (rec' c)) \<Longrightarrow> ext (parse_function cfg rec this schema) (parse_function cfg rec' this schema)"
  by (rule ext_eqI[OF parse_function_def parse_function_def], (unfold Let_def)?) (intro ext_intros | assumption)+

lemma ext_parse_case_loop:
  "(\<And>c. ext (rec c) (rec' c)) \<Longrightarrow> ext (parse_case_loop cfg rec expr ifs) (parse_case_loop cfg rec' expr ifs)"
  by (rule ext_eqI[OF parse_case_loop_def parse_case_loop_def], (unfold Let_def)?) (intro ext_intros | assumption)+

lemma ext_parse_case:
  "(\<And>c. ext (rec c) (rec' c)) \<Longrightarrow> ext (parse_case rec) (parse_case rec')"
  by (rule ext_eqI[OF parse_case_def parse_case_def], (unfold Let_def)?) (intro ext_intros | assumption)+

lemma ext_parse_count:
  "(\<And>c. ext (rec c) (rec' c)) \<Longrightarrow> ext (parse_count cfg rec) (parse_count cfg rec')"
  by (rule ext_eqI[OF parse_count_def parse_count_def], (unfold Let_def)?) (intro ext_intros | assumption)+

lemma ext_parse_extract:
  "(\<And>c. ext (rec c) (rec' c)) \<Longrightarrow> ext (parse_extract cfg rec) (parse_extract cfg rec')"
  by (rule ext_eqI[OF parse_extract_def parse_extract_def], (unfold Let_def)?) (intro ext_intros | assumption)+

lemma ext_parse_cast:
  "(\<And>c. ext (rec c) (rec' c)) \<Longrightarrow> ext (parse_cast cfg rec) (parse_cast cfg rec')"
  by (rule ext_eqI[OF parse_cast_def parse_cast_def], (unfold Let_def)?) (intro ext_intros | assumption)+

lemma ext_parse_window_spec:
  "(\<And>c. ext (rec c) (rec' c)) \<Longrightarrow> ext (parse_window_spec rec) (parse_window_spec rec')"
  by (rule ext_eqI[OF parse_window_spec_def parse_window_spec_def], (unfold Let_def)?) (intro ext_intros | assumption)+

lemma ext_parse_window:
  "(\<And>c. ext (rec c) (rec' c)) \<Longrightarrow> ext (parse_window cfg rec this) (parse_window cfg rec' this)"
  by (rule ext_eqI[OF parse_window_def parse_window_def], (unfold Let_def)?) (intro ext_intros | assumption)+

lemma ext_parse_hint:
  "(\<And>c. ext (rec c) (rec' c)) \<Longrightarrow> ext (parse_hint cfg rec) (parse_hint cfg rec')"
  by (rule ext_eqI[OF parse_hint_def parse_hint_def], (unfold Let_def)?) (intro ext_intros | assumption)+

lemma ext_parse_from:
  "(\<And>c. ext (rec c) (rec' c)) \<Longrightarrow> ext (parse_from cfg rec) (parse_from cfg rec')"
  by (rule ext_eqI[OF parse_from_def parse_from_def], (unfold Let_def)?) (intro ext_intros | assumption)+

lemma ext_parse_laterals_loop:
  "(\<And>c. ext (rec c) (rec' c)) \<Longrightarrow> ext (parse_laterals_loop cfg rec laterals columns) (parse_laterals_loop cfg rec' laterals columns)"
  by (rule ext_eqI[OF parse_laterals_loop_def parse_laterals_loop_def], (unfold Let_def)?) (intro ext_intros | assumption)+

lemma ext_parse_laterals:
  "(\<And>c. ext (rec c) (rec' c)) \<Longrightarrow> ext (parse_laterals rec) (parse_laterals rec')"
  by (rule ext_eqI[OF parse_laterals_def parse_laterals_def], (unfold Let_def)?) (intro ext_intros | assumption)+

lemma ext_parse_joins_loop:
  "(\<And>c. ext (rec c) (rec' c)) \<Longrightarrow> ext (parse_joins_loop cfg rec joins) (parse_joins_loop cfg rec' joins)"
  by (rule ext_eqI[OF parse_joins_loop_def parse_joins_loop_def], (unfold Let_def)?) (intro ext_intros | assumption)+

lemma ext_parse_joins:
  "(\<And>c. ext (rec c) (rec' c)) \<Longrightarrow> ext (parse_joins rec) (parse_joins rec')"
  by (rule ext_eqI[OF parse_joins_def parse_joins_def], (unfold Let_def)?) (intro ext_intros | assumption)+

lemma ext_parse_where:
  "(\<And>c. ext (rec c) (rec' c)) \<Longrightarrow> ext (parse_where cfg rec) (parse_where cfg rec')"
  by (rule ext_eqI[OF parse_where_def parse_where_def], (unfold Let_def)?) (intro ext_intros | assumption)+

lemma ext_parse_group:
  "(\<And>c. ext (rec c) (rec' c)) \<Longrightarrow> ext (parse_group cfg rec) (parse_group cfg rec')"
  by (rule ext_eqI[OF parse_group_def parse_group_def], (unfold Let_def)?) (intro ext_intros | assumption)+

lemma ext_parse_having:
  "(\<And>c. ext (rec c) (rec' c)) \<Longrightarrow> ext (parse_having cfg rec) (parse_having cfg rec')"
  by (rule ext_eqI[OF parse_having_def parse_having_def], (unfold Let_def)?) (intro ext_intros | assumption)+

lemma ext_parse_order:
  "(\<And>c. ext (rec c) (rec' c)) \<Longrightarrow> ext (parse_order cfg rec) (parse_order cfg rec')"
  by (rule ext_eqI[OF parse_order_def parse_order_def], (unfold Let_def)?) (intro ext_intros | assumption)+

lemma ext_parse_ordered:
  "(\<And>c. ext (rec c) (rec' c)) \<Longrightarrow> ext (parse_ordered cfg rec) (parse_ordered cfg rec')"
  by (rule ext_eqI[OF parse_ordered_def parse_ordered_def], (unfold Let_def)?) (intro ext_intros | assumption)+

lemma ext_parse_union:
  "(\<And>c. ext (rec c) (rec' c)) \<Longrightarrow> ext (parse_union cfg rec this) (parse_union cfg rec' this)"
  by (rule ext_eqI[OF parse_union_def parse_union_def], (unfold Let_def)?) (intro ext_intros | assumption)+

lemma ext_parse_unnest:
  "(\<And>c. ext (rec c) (rec' c)) \<Longrightarrow> ext (parse_unnest cfg rec) (parse_unnest cfg rec')"
  by (rule ext_eqI[OF parse_unnest_def parse_unnest_def], (unfold Let_def)?) (intro ext_intros | assumption)+

lemma ext_parse_table:
  "(\<And>c. ext (rec c) (rec' c)) \<Longrightarrow> ext (parse_table cfg rec alias schema) (parse_table cfg rec' alias schema)"
  by (rule ext_eqI[OF parse_table_def parse_table_def], (unfold Let_def)?) (intro ext_intros | assumption)+

lemma ext_parse_value:
  "(\<And>c. ext (rec c) (rec' c)) \<Longrightarrow> ext (parse_value cfg rec) (parse_value cfg rec')"
  by (rule ext_eqI[OF parse_value_def parse_value_def], (unfold Let_def)?) (intro ext_intros | assumption)+

lemma ext_parse_values:
  "(\<And>c. ext (rec c) (rec' c)) \<Longrightarrow> ext (parse_values cfg rec) (parse_values cfg rec')"
  by (rule ext_eqI[OF parse_values_def parse_values_def], (unfold Let_def)?) (intro ext_intros | assumption)+

lemma ext_parse_select:
  "(\<And>c. ext (rec c) (rec' c)) \<Longrightarrow> ext (parse_select cfg rec) (parse_select cfg rec')"
  by (rule ext_eqI[OF parse_select_def parse_select_def], (unfold Let_def)?) (intro ext_intros | assumption)+

lemma ext_parse_cte_loop:
  "(\<And>c. ext (rec c) (rec' c)) \<Longrightarrow> ext (parse_cte_loop cfg rec expressions) (parse_cte_loop cfg rec' expressions)"
  by (rule ext_eqI[OF parse_cte_loop_def parse_cte_loop_def], (unfold Let_def)?) (intro ext_intros | assumption)+

lemma ext_parse_cte:
  "(\<And>c. ext (rec c) (rec' c)) \<Longrightarrow> ext (parse_cte rec) (parse_cte rec')"
  by (rule ext_eqI[OF parse_cte_def parse_cte_def], (unfold Let_def)?) (intro ext_intros | assumption)+

lemma ext_parse_drop:
  "(\<And>c. ext (rec c) (rec' c)) \<Longrightarrow> ext (parse_drop cfg rec) (parse_drop cfg rec')"
  by (rule ext_eqI[OF parse_drop_def parse_drop_def], (unfold Let_def)?) (intro ext_intros | assumption)+

lemma ext_parse_create_loop:
  "(\<And>c. ext (rec c) (rec' c)) \<Longrightarrow> ext (parse_create_loop cfg rec kwargs options) (parse_create_loop cfg rec' kwargs options)"
  by (rule ext_eqI[OF parse_create_loop_def parse_create_loop_def], (unfold Let_def)?) (intro ext_intros | assumption)+

lemma ext_parse_create:
  "(\<And>c. ext (rec c) (rec' c)) \<Longrightarrow> ext (parse_create cfg rec) (parse_create cfg rec')"
  by (rule ext_eqI[OF parse_create_def parse_create_def], (unfold Let_def)?) (intro ext_intros | assumption)+

lemma ext_parse_insert:
  "(\<And>c. ext (rec c) (rec' c)) \<Longrightarrow> ext (parse_insert cfg rec) (parse_insert cfg rec')"
  by (rule ext_eqI[OF parse_insert_def parse_insert_def], (unfold Let_def)?) (intro ext_intros | assumption)+

lemma ext_parse_update:
  "(\<And>c. ext (rec c) (rec' c)) \<Longrightarrow> ext (parse_update cfg rec) (parse_update cfg rec')"
  by (rule ext_eqI[OF parse_update_def parse_update_def], (unfold Let_def)?) (intro ext_intros | assumption)+

lemma ext_parse_statement:
  "(\<And>c. ext (rec c) (rec' c)) \<Longrightarrow> ext (parse_statement rec) (parse_statement rec')"
  by (rule ext_eqI[OF parse_statement_def parse_statement_def], (unfold Let_def)?) (intro ext_intros | assumption)+

lemma ext_dispatch: "(\<And>c. ext (rec c) (rec' c)) \<Longrightarrow> ext (dispatch cfg rec c) (dispatch cfg rec' c)"
  by (rule ext_eqI[OF dispatch_def dispatch_def], cases c)
    (simp_all add: ext_refl ext_parse_csv_loop ext_parse_csv ext_parse_tokens_loop ext_parse_tokens ext_parse_alias ext_parse_dot ext_parse_brackets ext_parse_expression ext_parse_conjunction ext_parse_equality ext_parse_comparison ext_parse_range ext_parse_bitwise ext_parse_term ext_parse_factor ext_parse_unary ext_parse_type ext_parse_types ext_parse_column_def_loop ext_parse_column_def ext_parse_primary ext_parse_column_loop ext_parse_column ext_parse_function ext_parse_case_loop ext_parse_case ext_parse_count ext_parse_extract ext_parse_cast ext_parse_window_spec ext_parse_window ext_parse_hint ext_parse_from ext_parse_laterals_loop ext_parse_laterals ext_parse_joins_loop ext_parse_joins ext_parse_where ext_parse_group ext_parse_having ext_parse_order ext_parse_ordered ext_parse_union ext_parse_unnest ext_parse_table ext_parse_value ext_parse_values ext_parse_select ext_parse_cte_loop ext_parse_cte ext_parse_drop ext_parse_create_loop ext_parse_create ext_parse_insert ext_parse_update ext_parse_statement)

lemma ext_run_Suc: "ext (run cfg n c) (run cfg (Suc n) c)"
proof (induction n arbitrary: c)
  case 0
  show ?case by (simp add: ext_def throw_def)
next
  case (Suc n)
  show ?case
    by (rule ext_eqI[OF run.simps(2) run.simps(2)]) (rule ext_dispatch, rule Suc)
qed

lemma ext_run: "ext (run cfg n c) (run cfg (n + k) c)"
proof (induction k)
  case 0
  show ?case by (simp add: ext_refl)
next
  case (Suc k)
  show ?case unfolding add_Suc_right by (rule ext_trans[OF Suc ext_run_Suc])
qed

lemma ext_parse_chunks:
  "ext (parse_chunks cfg n chunks acc) (parse_chunks cfg (n + k) chunks acc)"
proof (induction chunks arbitrary: acc)
  case Nil
  show ?case by (simp add: ext_def)
next
  case (Cons c chunks)
  show ?case
    by (rule ext_eqI[OF parse_chunks.simps(2) parse_chunks.simps(2)])
      (intro ext_intros ext_run Cons)
qed

lemma parse_more_fuel:
  "fst (parse cfg n raw_tokens code s) \<noteq> Inl OutOfFuel \<Longrightarrow>
   parse cfg (n + k) raw_tokens code s = parse cfg n raw_tokens code s"
  using ext_parse_chunks[of cfg n _ "[]" k] by (simp add: parse_def Let_def ext_def)

lemma run_more_fuel:
  "fst (run cfg n c s) \<noteq> Inl OutOfFuel \<Longrightarrow> run cfg (n + k) c s = run cfg n c s"
  using ext_run[of cfg n c k] by (simp add: ext_def)

subsection \<open>The window under \<^verbatim>\<open>_match\<close>\<close>

lemma advance_wf:
  assumes "wf_window s"
  shows "advance s =
    (Inr (), s\<lparr>p_index := p_index s + 1, p_curr := p_next s,
               p_next := (case list_get (p_tokens s) (p_index s + 2) of Inr n \<Rightarrow> n | Inl e \<Rightarrow> None),
               p_prev := p_curr s\<rparr>)"
  using assms
  by (auto simp: advance_def wf_window_def Let_def bnd_def lift_def list_get_def add.commute
      split: if_splits)

lemma advance_index: "p_index (snd (advance s)) = p_index s + 1"
  by (simp add: advance_def Let_def bnd_def lift_def split: sum.splits)

lemma match_hit:
  assumes "wf_window s" "p_curr s = Some t" "token_type t \<in> set types"
  shows "fst (match types s) = Inr (PTok t)"
    and "p_index (snd (match types s)) = p_index s + 1"
    and "p_curr (snd (match types s)) = p_next s"
    and "p_prev (snd (match types s)) = Some t"
    and "p_tokens (snd (match types s)) = p_tokens s"
  using assms by (simp_all add: match_def bnd_def advance_wf opt_val_def)

lemma match_miss:
  assumes "p_curr s = None \<or> (\<exists>t. p_curr s = Some t \<and> token_type t \<notin> set types)"
  shows "match types s = (Inr PNone, s)"
  using assms by (auto simp: match_def)

lemma match_wf: "wf_window s \<Longrightarrow> wf_window (snd (match types s))"
  using pres_match[of types] by (simp add: pres_def forward_def)

lemma start_wf: "wf_window (snd (bnd (start_tokens toks) (\<lambda>_. advance) s))"
  by (simp add: bnd_def start_tokens_def advance_def Let_def lift_def list_get_def wf_window_def)

lemma match_step:
  assumes "wf_window s"
  obtains v s' where "match types s = (Inr v, s')" "wf_window s'"
    "truthy v \<longleftrightarrow> (\<exists>t. p_curr s = Some t \<and> token_type t \<in> set types)"
    "p_curr s' = (if truthy v then p_next s else p_curr s)"
proof (cases "\<exists>t. p_curr s = Some t \<and> token_type t \<in> set types")
  case True
  then obtain t where t: "p_curr s = Some t" "token_type t \<in> set types" by blast
  have "match types s = (Inr (PTok t), snd (match types s))"
    using match_hit(1)[OF assms t] by (metis prod.collapse)
  moreover have "wf_window (snd (match types s))" using match_wf[OF assms] .
  moreover have "p_curr (snd (match types s)) = p_next s" using match_hit(3)[OF assms t] .
  ultimately show ?thesis using that[of "PTok t" "snd (match types s)"] True by simp
next
  case False
  then have "match types s = (Inr PNone, s)" by (intro match_miss) (cases "p_curr s"; auto)
  then show ?thesis using that[of PNone s] False assms by simp
qed

lemma pair_fstI: "fst p = a \<Longrightarrow> p = (a, snd p)"
  by (cases p) simp

subsection \<open>Loops of the factory and of the entry point\<close>

lemma raise_error_raises:
  "c_error_level cfg = RAISE \<Longrightarrow> fst (raise_error cfg msg tok s) \<noteq> Inr ()"
  by (simp add: raise_error_def Let_def split: sum.splits)

lemma for_each_Inr:
  assumes "fst (for_each xs f s) = Inr u" "x \<in> set xs"
  shows "\<exists>s1. fst (f x s1) = Inr ()"
  using assms
proof (induction xs arbitrary: s)
  case Nil
  then show ?case by simp
next
  case (Cons y ys)
  obtain r s1 where fy: "f y s = (r, s1)" by (cases "f y s")
  with Cons.prems(1) obtain u' where r: "r = Inr u'" and rest: "fst (for_each ys f s1) = Inr u"
    by (cases r) (auto simp: bnd_def)
  show ?case
  proof (cases "x = y")
    case True
    then show ?thesis using fy r by (intro exI[of _ s]) simp
  next
    case False
    then show ?thesis using Cons.IH[OF rest] Cons.prems(2) by simp
  qed
qed

lemma bnd_Inr_iff:
  "bnd m f s = (Inr v, s') \<longleftrightarrow> (\<exists>x s1. m s = (Inr x, s1) \<and> f x s1 = (Inr v, s'))"
  by (auto simp: bnd_def split: prod.splits sum.splits)

lemma length_append_to_last: "length (append_to_last chunks t) = length chunks"
  by (induction chunks t rule: append_to_last.induct) auto

lemma length_split_chunks:
  "i + length ts = total_len \<Longrightarrow>
   length (split_chunks total_len i ts chunks)
     = length chunks + length (filter (\<lambda>t. token_type t = ''SEMICOLON'') (butlast ts))"
proof (induction ts arbitrary: i chunks)
  case Nil
  then show ?case by simp
next
  case (Cons t ts)
  have "Suc i + length ts = total_len" using Cons.prems by simp
  note IH = Cons.IH[OF this]
  show ?case
  proof (cases "ts = []")
    case True
    then show ?thesis using Cons.prems by (simp add: length_append_to_last)
  next
    case False
    then have "int i < int total_len - 1" using Cons.prems by (cases ts) auto
    then show ?thesis using False by (simp add: IH length_append_to_last)
  qed
qed

lemma length_parse_chunks:
  "parse_chunks cfg fuel chunks acc s = (Inr es, s') \<Longrightarrow> length es = length acc + length chunks"
proof (induction chunks arbitrary: acc s)
  case Nil
  then show ?case by (simp add: ret_def)
next
  case (Cons c chunks)
  from Cons.prems obtain e s1 where
    "parse_chunks cfg fuel chunks (acc @ [ensure_non_token e]) s1 = (Inr es, s')"
    by (auto simp: bnd_Inr_iff)
  from Cons.IH[OF this] show ?case by simp
qed

subsection \<open>Scenarios\<close>

text \<open>
  Claim C1.  Construction through \<^verbatim>\<open>expression\<close> obeys the error policy.  With
  \<^verbatim>\<open>IGNORE\<close> the three constructions \<^verbatim>\<open>expression(Hint)\<close>,
  \<^verbatim>\<open>expression(Hint, this="")\<close> and \<^verbatim>\<open>expression(Hint, y="")\<close> return the node.  With
  \<^verbatim>\<open>RAISE\<close> the second returns the node and the other two raise a \<^verbatim>\<open>ParseError\<close>.  With
  \<^verbatim>\<open>WARN\<close> the two invalid constructions return the node and log the messages
  \<^verbatim>\<open>Required keyword: 'this' missing\<close> and \<^verbatim>\<open>Unexpected keyword: 'y'\<close>, each with
  \<^verbatim>\<open>Line 1, Col: 1.\<close>
\<close>

theorem expression_error_policy:
  "fst (expression (Parser IGNORE) ''Hint'' [] init_state) = Inr (Expression ''Hint'' [])
   \<and> fst (expression (Parser IGNORE) ''Hint'' [(''this'', PStr [])] init_state)
       = Inr (Expression ''Hint'' [(''this'', PStr [])])
   \<and> fst (expression (Parser IGNORE) ''Hint'' [(''y'', PStr [])] init_state)
       = Inr (Expression ''Hint'' [(''y'', PStr [])])
   \<and> fst (expression (Parser RAISE) ''Hint'' [(''this'', PStr [])] init_state)
       = Inr (Expression ''Hint'' [(''this'', PStr [])])
   \<and> fst (expression (Parser RAISE) ''Hint'' [] init_state)
       = Inl (ParseError
           (''Required keyword: 'this' missing for <class 'sqlglot.expressions.Hint'>''
            @ ''. Line 1, Col: 1.'' @ [CHR 0x0A, CHR 0x1B] @ ''[4m'' @ [CHR 0x1B] @ ''[0m''))
   \<and> fst (expression (Parser RAISE) ''Hint'' [(''y'', PStr [])] init_state)
       = Inl (ParseError
           (''Unexpected keyword: '' @ quoted ''y'' @ '' for <class 'sqlglot.expressions.Hint'>''
            @ ''. Line 1, Col: 1.'' @ [CHR 0x0A, CHR 0x1B] @ ''[4m'' @ [CHR 0x1B] @ ''[0m''))
   \<and> fst (expression (Parser WARN) ''Hint'' [] init_state) = Inr (Expression ''Hint'' [])
   \<and> p_log (snd (expression (Parser WARN) ''Hint'' [] init_state))
       = [''Required keyword: 'this' missing for <class 'sqlglot.expressions.Hint'>''
          @ ''. Line 1, Col: 1.'' @ [CHR 0x0A, CHR 0x1B] @ ''[4m'' @ [CHR 0x1B] @ ''[0m'']
   \<and> fst (expression (Parser WARN) ''Hint'' [(''y'', PStr [])] init_state)
       = Inr (Expression ''Hint'' [(''y'', PStr [])])
   \<and> p_log (snd (expression (Parser WARN) ''Hint'' [(''y'', PStr [])] init_state))
       = [''Unexpected keyword: '' @ quoted ''y'' @ '' for <class 'sqlglot.expressions.Hint'>''
          @ ''. Line 1, Col: 1.'' @ [CHR 0x0A, CHR 0x1B] @ ''[4m'' @ [CHR 0x1B] @ ''[0m'',
          ''Required keyword: 'this' missing for <class 'sqlglot.expressions.Hint'>''
          @ ''. Line 1, Col: 1.'' @ [CHR 0x0A, CHR 0x1B] @ ''[4m'' @ [CHR 0x1B] @ ''[0m'']"
  by code_simp

text \<open>
  Claim C4.  \<^verbatim>\<open>SELECT x FROM t WHERE a BETWEEN 1 AND 2 AND b IN (1,2,3)\<close> parses to one
  \<^verbatim>\<open>Select\<close> whose \<^verbatim>\<open>where\<close> slot is \<^verbatim>\<open>And(Between(a,1,2), In(b,[1,2,3]))\<close>: the
  \<^verbatim>\<open>AND\<close> inside \<^verbatim>\<open>BETWEEN\<close> and the \<^verbatim>\<open>IN\<close> list bind tighter than the conjunction.
  The bound on the depth of calls is any number from 100 on.
\<close>

theorem between_in_precedence:
  "fst (parse (Parser RAISE) (100 + k) between_in_tokens between_in_sql init_state)
     = Inr [between_in_tree]
   \<and> map_of (case between_in_tree of Expression c args \<Rightarrow> args | _ \<Rightarrow> []) ''where''
       = Some between_in_where"
proof -
  have t: "fst (parse (Parser RAISE) 100 between_in_tokens between_in_sql init_state)
             = Inr [between_in_tree]"
    by code_simp
  have w: "map_of (case between_in_tree of Expression c args \<Rightarrow> args | _ \<Rightarrow> []) ''where''
             = Some between_in_where"
    by code_simp
  from parse_more_fuel[of "Parser RAISE" 100 between_in_tokens between_in_sql init_state k] t w
  show ?thesis by simp
qed

text \<open>
  Claim C5.  Under \<^verbatim>\<open>RAISE\<close>, \<^verbatim>\<open>IF(a > 0, a, b, c)\<close> raises the function-arity error
  (four arguments against the three slots of \<^verbatim>\<open>If\<close>, which is not of variable arity) and
  \<^verbatim>\<open>IF(a > 0)\<close> raises the missing-mandatory-slot error for \<^verbatim>\<open>true\<close>.  The bound on the
  depth of calls is any number from 100 on.
\<close>

theorem if_arity_and_missing_slot:
  "fst (parse (Parser RAISE) (100 + k) if_four_tokens if_four_sql init_state)
     = Inl (ParseError
         (''The number of provided arguments (4) is greater than ''
          @ ''the maximum number of supported arguments (3)''
          @ ''. Line 1, Col: 18.'' @ [CHR 0x0A] @ ''IF(a > 0, a, b, c''
          @ [CHR 0x1B] @ ''[4m)'' @ [CHR 0x1B] @ ''[0m''))
   \<and> fst (parse (Parser RAISE) (100 + k) if_one_tokens if_one_sql init_state)
     = Inl (ParseError
         (''Required keyword: 'true' missing for <class 'sqlglot.expressions.If'>''
          @ ''. Line 1, Col: 9.'' @ [CHR 0x0A] @ ''IF(a > 0''
          @ [CHR 0x1B] @ ''[4m)'' @ [CHR 0x1B] @ ''[0m''))"
proof -
  have f: "fst (parse (Parser RAISE) 100 if_four_tokens if_four_sql init_state)
     = Inl (ParseError
         (''The number of provided arguments (4) is greater than ''
          @ ''the maximum number of supported arguments (3)''
          @ ''. Line 1, Col: 18.'' @ [CHR 0x0A] @ ''IF(a > 0, a, b, c''
          @ [CHR 0x1B] @ ''[4m)'' @ [CHR 0x1B] @ ''[0m''))"
    by code_simp
  have o: "fst (parse (Parser RAISE) 100 if_one_tokens if_one_sql init_state)
     = Inl (ParseError
         (''Required keyword: 'true' missing for <class 'sqlglot.expressions.If'>''
          @ ''. Line 1, Col: 9.'' @ [CHR 0x0A] @ ''IF(a > 0''
          @ [CHR 0x1B] @ ''[4m)'' @ [CHR 0x1B] @ ''[0m''))"
    by code_simp
  from parse_more_fuel[of "Parser RAISE" 100 if_four_tokens if_four_sql init_state k]
    parse_more_fuel[of "Parser RAISE" 100 if_one_tokens if_one_sql init_state k] f o
  show ?thesis by simp
qed

subsection \<open>Statements per token list\<close>

text \<open>
  Claim C2, as the code has it.  When \<^verbatim>\<open>parse\<close> returns, its list has one entry per
  chunk: one more than the number of \<^verbatim>\<open>SEMICOLON\<close> tokens that are not the last token of
  the input.  Only a final \<^verbatim>\<open>SEMICOLON\<close> opens no chunk.
\<close>

theorem parse_length:
  assumes "fst (parse cfg fuel raw_tokens code s) = Inr es"
  shows "length es = length (split_chunks (length raw_tokens) 0 raw_tokens [[]])
         \<and> length es = 1 + length (filter (\<lambda>t. token_type t = ''SEMICOLON'') (butlast raw_tokens))"
proof -
  let ?chunks = "split_chunks (length raw_tokens) 0 raw_tokens [[]]"
  from assms obtain s' where
    "parse_chunks cfg fuel ?chunks [] ((reset s)\<lparr>p_code := code, p_chunks := ?chunks\<rparr>) = (Inr es, s')"
    by (cases "parse cfg fuel raw_tokens code s") (simp add: parse_def Let_def)
  from length_parse_chunks[OF this] length_split_chunks[of 0 raw_tokens "length raw_tokens" "[[]]"]
  show ?thesis by simp
qed

text \<open>
  Claim C2, witness: the statements \<^verbatim>\<open>a;;b\<close> give three entries, for two
  \<^verbatim>\<open>SEMICOLON\<close> tokens before the last token.
\<close>

theorem parse_length_witness:
  "fst (parse (Parser RAISE) 100 two_semicolons_tokens ''a;;b'' init_state)
     = Inr [column_node ''a'', PNone, column_node ''b'']
   \<and> length [column_node ''a'', PNone, column_node ''b'']
     = 1 + length (filter (\<lambda>t. token_type t = ''SEMICOLON'') (butlast two_semicolons_tokens))"
proof -
  have e: "fst (parse (Parser RAISE) 100 two_semicolons_tokens ''a;;b'' init_state)
             = Inr [column_node ''a'', PNone, column_node ''b'']"
    by code_simp
  from parse_length[OF e] e show ?thesis by simp
qed

text \<open>
  Claim C2, counterexample to the claim as stated: \<^verbatim>\<open>a;;b\<close> has two non-empty
  statements, and \<^verbatim>\<open>parse\<close> returns three entries, the second being \<^verbatim>\<open>None\<close>.
\<close>

theorem parse_length_counterexample:
  "fst (parse (Parser RAISE) 100 two_semicolons_tokens ''a;;b'' init_state)
     = Inr [column_node ''a'', PNone, column_node ''b'']
   \<and> count_non_empty_statements two_semicolons_tokens = 2
   \<and> length [column_node ''a'', PNone, column_node ''b''] \<noteq> count_non_empty_statements two_semicolons_tokens"
  by code_simp

subsection \<open>Mandatory slots\<close>

text \<open>
  Claim C6, as the code has it.  Under the policy \<^verbatim>\<open>RAISE\<close>, when \<^verbatim>\<open>expression\<close>
  returns a node, every slot that \<^verbatim>\<open>arg_types\<close> marks mandatory has a value in the node's
  \<^verbatim>\<open>args\<close> that is neither \<^verbatim>\<open>None\<close> nor the empty list.
\<close>

theorem mandatory_slots_filled_under_raise:
  assumes "c_error_level cfg = RAISE"
      and "fst (expression cfg cls kwargs s) = Inr e"
      and "(k, True) \<in> set (c_arg_types cfg cls)"
  shows "\<exists>args v. e = Expression cls args \<and> map_of args k = Some v \<and> v \<noteq> PNone \<and> v \<noteq> PList []"
proof -
  define kw where "kw = map (\<lambda>(k, arg). (k, case arg of PList vs \<Rightarrow> PList (map ensure_non_token vs)
                                    | _ \<Rightarrow> ensure_non_token arg)) kwargs"
  have ex: "expression cfg cls kwargs s
      = bnd (validate_expression cfg (Expression cls kw)) (\<lambda>_. ret (Expression cls kw)) s"
    by (simp add: expression_def kw_def Let_def)
  from assms(2) have e: "e = Expression cls kw"
    and v: "\<exists>u. fst (validate_expression cfg (Expression cls kw) s) = Inr u"
    unfolding ex by (auto simp: bnd_def ret_def split: prod.splits sum.splits)
  let ?g = "\<lambda>(k, mandatory).
                 if mandatory \<and> is_empty_slot (map_of kw k) then
                   raise_error cfg
                     (''Required keyword: '' @ quoted k @ '' missing for '' @ class_repr cls) None
                 else ret ()"
  from v assms(1) obtain s1 u where "fst (for_each (c_arg_types cfg cls) ?g s1) = Inr u"
    by (auto simp: validate_expression_def bnd_def split: prod.splits sum.splits)
  from for_each_Inr[OF this assms(3)] obtain s2 where "fst (?g (k, True) s2) = Inr ()" by blast
  then have "\<not> is_empty_slot (map_of kw k)"
    using raise_error_raises[OF assms(1)] by (auto split: if_splits)
  then show ?thesis using e by (auto simp: is_empty_slot_def)
qed

text \<open>Claim C6, witness: \<^verbatim>\<open>expression(Hint, this="x")\<close> under \<^verbatim>\<open>RAISE\<close>.\<close>

theorem mandatory_slots_filled_under_raise_witness:
  "fst (expression (Parser RAISE) ''Hint'' [(''this'', PStr ''x'')] init_state)
     = Inr (Expression ''Hint'' [(''this'', PStr ''x'')])
   \<and> (\<exists>args v. Expression ''Hint'' [(''this'', PStr ''x'')] = Expression ''Hint'' args
          \<and> map_of args ''this'' = Some v \<and> v \<noteq> PNone \<and> v \<noteq> PList [])"
proof -
  have l: "c_error_level (Parser RAISE) = RAISE" by (simp add: Parser_def)
  have e: "fst (expression (Parser RAISE) ''Hint'' [(''this'', PStr ''x'')] init_state)
             = Inr (Expression ''Hint'' [(''this'', PStr ''x'')])"
    by code_simp
  have k: "(''this'', True) \<in> set (c_arg_types (Parser RAISE) ''Hint'')"
    by (simp add: Parser_def sqlglot_arg_types_def)
  from mandatory_slots_filled_under_raise[OF l e k] e show ?thesis by simp
qed

text \<open>
  Claim C6, counterexample to the claim as stated: the policy \<^verbatim>\<open>WARN\<close> is not
  \<^verbatim>\<open>IGNORE\<close>, \<^verbatim>\<open>expression(Hint)\<close> returns under it, and the mandatory slot \<^verbatim>\<open>this\<close> of
  the node is empty.
\<close>

theorem mandatory_slots_warn_counterexample:
  "c_error_level (Parser WARN) \<noteq> IGNORE
   \<and> fst (expression (Parser WARN) ''Hint'' [] init_state) = Inr (Expression ''Hint'' [])
   \<and> (''this'', True) \<in> set (c_arg_types (Parser WARN) ''Hint'')
   \<and> is_empty_slot (map_of [] ''this'')"
  by code_simp

subsection \<open>Types\<close>

text \<open>
  Claim C7, as the code has it.  The ambiguous token types are \<^verbatim>\<open>ARRAY\<close>, \<^verbatim>\<open>DATE\<close> and
  \<^verbatim>\<open>MAP\<close>, and no others.  When the current token is one of them and the next token is
  \<^verbatim>\<open>(\<close> or \<^verbatim>\<open>[\<close>, \<^verbatim>\<open>_parse_types\<close> returns \<^verbatim>\<open>None\<close> and consumes nothing.
\<close>

theorem ambiguous_tokens_yield_none:
  assumes "p_curr s = Some c" "token_type c \<in> {''ARRAY'', ''DATE'', ''MAP''}"
      and "p_next s = Some n" "token_type n \<in> {''L_PAREN'', ''L_BRACKET''}"
  shows "parse_types rec s = (Inr PNone, s) \<and> set AMBIGUOUS_TOKEN_TYPES = {''ARRAY'', ''DATE'', ''MAP''}"
  using assms
  by (auto simp: parse_types_def bnd_def get_curr_def get_next_def ret_def AMBIGUOUS_TOKEN_TYPES_def)

text \<open>Claim C7, witness: \<^verbatim>\<open>ARRAY[1]\<close>.\<close>

theorem ambiguous_tokens_yield_none_witness:
  "parse_types (run (Parser RAISE) 10) (start_chunk array_tokens ''ARRAY[1]'')
     = (Inr PNone, start_chunk array_tokens ''ARRAY[1]'')"
proof -
  let ?s = "start_chunk array_tokens ''ARRAY[1]''"
  have c: "p_curr ?s = Some (tk ''ARRAY'' ''ARRAY'' 1)" by code_simp
  have n: "p_next ?s = Some (tk ''L_BRACKET'' ''['' 6)" by code_simp
  from ambiguous_tokens_yield_none[OF c _ n, of "run (Parser RAISE) 10"]
  show ?thesis by (simp add: tk_def)
qed

text \<open>
  Claim C7, counterexample to the claim as stated: \<^verbatim>\<open>DECIMAL\<close> is a type token, the next
  token is \<^verbatim>\<open>(\<close>, and \<^verbatim>\<open>_parse_types\<close> on \<^verbatim>\<open>DECIMAL(10, 2)\<close> returns a \<^verbatim>\<open>Decimal\<close> node.
\<close>

theorem type_token_followed_by_paren_counterexample:
  "p_curr (start_chunk decimal_tokens ''DECIMAL(10, 2)'') = Some (tk ''DECIMAL'' ''DECIMAL'' 1)
   \<and> ''DECIMAL'' \<in> set TYPE_TOKENS
   \<and> p_next (start_chunk decimal_tokens ''DECIMAL(10, 2)'') = Some (tk ''L_PAREN'' ''('' 8)
   \<and> fst (run (Parser RAISE) 100 Types (start_chunk decimal_tokens ''DECIMAL(10, 2)''))
       = Inr (Expression ''Decimal''
               [(''precision'', number_node ''10''), (''scale'', number_node ''2'')])"
  by code_simp

text \<open>
  Claim C9.  On a coherent window whose current token is \<^verbatim>\<open>TIMESTAMP\<close> or
  \<^verbatim>\<open>TIMESTAMPTZ\<close>, \<^verbatim>\<open>_parse_types\<close> returns a \<^verbatim>\<open>TIMESTAMPTZ\<close> token when the next token
  is \<^verbatim>\<open>WITH\<close> and a \<^verbatim>\<open>TIMESTAMP\<close> token otherwise, whichever of the two the input token
  was.
\<close>

theorem timestamp_collapses_on_with:
  assumes wf: "wf_window s" and c: "p_curr s = Some c"
      and tt: "token_type c \<in> {''TIMESTAMP'', ''TIMESTAMPTZ''}"
  shows "fst (parse_types rec s) =
           Inr (PTok (if (case p_next s of Some n \<Rightarrow> token_type n = ''WITH'' | None \<Rightarrow> False)
                      then Token ''TIMESTAMPTZ'' ''TIMESTAMPTZ''
                      else Token ''TIMESTAMP'' ''TIMESTAMP''))"
proof -
  obtain v1 s1 where m1: "match [''TIMESTAMP'', ''TIMESTAMPTZ''] s = (Inr v1, s1)" and wf1: "wf_window s1"
    and t1: "truthy v1" and c1: "p_curr s1 = p_next s"
    using match_step[OF wf, of "[''TIMESTAMP'', ''TIMESTAMPTZ'']"] c tt by (auto split: if_splits)
  obtain tz s2 where m2: "match [''WITH''] s1 = (Inr tz, s2)" and wf2: "wf_window s2"
    and tz: "truthy tz \<longleftrightarrow> (\<exists>t. p_curr s1 = Some t \<and> token_type t \<in> set [''WITH''])"
    using match_step[OF wf1, of "[''WITH'']"] by metis
  obtain v3 s3 where m3: "match [''WITHOUT''] s2 = (Inr v3, s3)" and wf3: "wf_window s3"
    using match_step[OF wf2, of "[''WITHOUT'']"] by metis
  obtain v4 s4 where m4: "match [''TIME''] s3 = (Inr v4, s4)" and wf4: "wf_window s4"
    using match_step[OF wf3, of "[''TIME'']"] by metis
  obtain v5 s5 where m5: "match [''ZONE''] s4 = (Inr v5, s5)"
    using match_step[OF wf4, of "[''ZONE'']"] by metis
  have amb: "token_type c \<notin> set AMBIGUOUS_TOKEN_TYPES"
    using tt by (auto simp: AMBIGUOUS_TOKEN_TYPES_def)
  have "truthy tz \<longleftrightarrow> (case p_next s of Some n \<Rightarrow> token_type n = ''WITH'' | None \<Rightarrow> False)"
    using tz c1 by (auto split: option.splits)
  then show ?thesis
    using c amb m1 t1 m2 m3 m4 m5
    by (simp add: parse_types_def bnd_def get_curr_def get_next_def ifM_def ret_def)
qed

text \<open>Claim C9, witness: a lone \<^verbatim>\<open>TIMESTAMPTZ\<close> token comes back as \<^verbatim>\<open>TIMESTAMP\<close>.\<close>

theorem timestamp_collapses_on_with_witness:
  "wf_window (start_chunk [tk ''TIMESTAMPTZ'' ''timestamptz'' 1] ''timestamptz'')
   \<and> fst (parse_types (run (Parser RAISE) 10) (start_chunk [tk ''TIMESTAMPTZ'' ''timestamptz'' 1] ''timestamptz''))
       = Inr (PTok (Token ''TIMESTAMP'' ''TIMESTAMP''))"
proof -
  let ?s = "start_chunk [tk ''TIMESTAMPTZ'' ''timestamptz'' 1] ''timestamptz''"
  have wf: "wf_window ?s" by code_simp
  have c: "p_curr ?s = Some (tk ''TIMESTAMPTZ'' ''timestamptz'' 1)" by code_simp
  have n: "p_next ?s = None" by code_simp
  have t: "token_type (tk ''TIMESTAMPTZ'' ''timestamptz'' 1) \<in> {''TIMESTAMP'', ''TIMESTAMPTZ''}"
    by (simp add: tk_def)
  show ?thesis using timestamp_collapses_on_with[OF wf c t, of "run (Parser RAISE) 10"] wf n by simp
qed

subsection \<open>Left-to-right consumption\<close>

text \<open>
  Claim C8.  No call of a method moves the index back or changes the tokens of the chunk,
  and \<^verbatim>\<open>_advance\<close> moves the index forward by one; the window is coherent when the
  statement of a chunk starts and every call keeps it coherent.  On a coherent window \<^verbatim>\<open>_match\<close> returns the current token and advances the
  index by one when the type of the current token is among the given types; otherwise it
  returns \<^verbatim>\<open>None\<close> and leaves the state as it is.
\<close>

theorem left_to_right_consumption:
  "p_index s \<le> p_index (snd (run cfg n c s))
   \<and> p_tokens (snd (run cfg n c s)) = p_tokens s
   \<and> p_index (snd (advance s)) = p_index s + 1
   \<and> wf_window (snd (bnd (start_tokens toks) (\<lambda>_. advance) s))
   \<and> (wf_window s \<longrightarrow> wf_window (snd (run cfg n c s)))
   \<and> (wf_window s \<and> p_curr s = Some t \<and> token_type t \<in> set types \<longrightarrow>
        fst (match types s) = Inr (PTok t)
        \<and> p_index (snd (match types s)) = p_index s + 1
        \<and> p_prev (snd (match types s)) = Some t
        \<and> p_curr (snd (match types s)) = p_next s)
   \<and> (p_curr s = None \<or> (\<exists>t. p_curr s = Some t \<and> token_type t \<notin> set types) \<longrightarrow>
        match types s = (Inr PNone, s))"
  using pres_run[of cfg n c] match_hit[of s t types] match_miss[of s types] start_wf[of toks s]
    advance_index[of s]
  by (simp add: pres_def forward_def)

text \<open>Claim C8, witness: the first token of the statement of claim C4.\<close>

theorem left_to_right_consumption_witness:
  "wf_window (start_chunk between_in_tokens between_in_sql)
   \<and> p_curr (start_chunk between_in_tokens between_in_sql) = Some (tk ''SELECT'' ''SELECT'' 1)
   \<and> fst (match [''SELECT''] (start_chunk between_in_tokens between_in_sql))
       = Inr (PTok (tk ''SELECT'' ''SELECT'' 1))
   \<and> p_index (snd (match [''SELECT''] (start_chunk between_in_tokens between_in_sql))) = 1
   \<and> match [''FROM''] (start_chunk between_in_tokens between_in_sql)
       = (Inr PNone, start_chunk between_in_tokens between_in_sql)
   \<and> 0 \<le> p_index (snd (run (Parser RAISE) 100 Statement
                            (start_chunk between_in_tokens between_in_sql)))"
proof -
  let ?s = "start_chunk between_in_tokens between_in_sql"
  let ?t = "tk ''SELECT'' ''SELECT'' 1"
  have wf: "wf_window ?s" by code_simp
  have c: "p_curr ?s = Some ?t" by code_simp
  have i: "p_index ?s = 0" by code_simp
  have t: "token_type ?t \<in> set [''SELECT'']" "token_type ?t \<notin> set [''FROM'']"
    by (simp_all add: tk_def)
  from left_to_right_consumption[of ?s "Parser RAISE" 100 Statement between_in_tokens ?t "[''SELECT'']"]
    left_to_right_consumption[of ?s "Parser RAISE" 100 Statement between_in_tokens ?t "[''FROM'']"]
    wf c i t
  show ?thesis by simp
qed

subsection \<open>LATERAL VIEW\<close>

text \<open>
  Claim C10.  In an iteration of the loop of \<^verbatim>\<open>_parse_laterals\<close> in which \<^verbatim>\<open>AS\<close> does
  not match, the \<^verbatim>\<open>Lateral\<close> node is built from the value the local \<^verbatim>\<open>columns\<close> holds on
  entry to the iteration: in the first iteration it holds none and the read raises
  \<^verbatim>\<open>UnboundLocalError\<close>; later it holds the list of an earlier clause.  An empty list is
  never supplied.
\<close>

theorem laterals_columns_read_without_alias:
  assumes "match [''LATERAL''] s = (Inr m, s1)" and "truthy m"
      and "unlessM (match [''VIEW'']) (raise_error cfg ''Expected VIEW afteral LATERAL'' None) s1
             = (Inr (), s2)"
      and "match [''OUTER''] s2 = (Inr outer, s3)"
      and "rec Primary s3 = (Inr this, s4)"
      and "rec IdVar s4 = (Inr table, s5)"
      and "match [''ALIAS''] s5 = (Inr a, s6)" and "\<not> truthy a"
      and "expression cfg ''Table'' [(''this'', table)] s6 = (Inr t, s7)"
  shows "parse_laterals_loop cfg rec laterals columns s =
           (case columns of
              None \<Rightarrow> (Inl (UnboundLocalError ''columns''), s7)
            | Some cs \<Rightarrow>
                bnd (expression cfg ''Lateral''
                       [(''this'', this), (''outer'', PBool (truthy outer)), (''table'', t),
                        (''columns'', cs)])
                    (\<lambda>l. rec (LateralsLoop (laterals @ [l]) columns)) s7)"
  using assms
  by (cases columns) (simp_all add: parse_laterals_loop_def ifM_def bnd_def ret_def throw_def)

text \<open>
  Claim C10, witness: \<^verbatim>\<open>LATERAL VIEW x tbl\<close>, and a whole statement with that clause
  under each policy.
\<close>

theorem laterals_columns_read_without_alias_witness:
  "fst (parse_laterals_loop (Parser RAISE) (run (Parser RAISE) 100) [] None
          (start_chunk lateral_view_tokens ''LATERAL VIEW x tbl''))
     = Inl (UnboundLocalError ''columns'')
   \<and> fst (parse (Parser RAISE) 100 lateral_tokens lateral_sql init_state)
       = Inl (UnboundLocalError ''columns'')
   \<and> fst (parse (Parser WARN) 100 lateral_tokens lateral_sql init_state)
       = Inl (UnboundLocalError ''columns'')
   \<and> fst (parse (Parser IGNORE) 100 lateral_tokens lateral_sql init_state)
       = Inl (UnboundLocalError ''columns'')"
proof -
  have p: "fst (parse (Parser RAISE) 100 lateral_tokens lateral_sql init_state)
             = Inl (UnboundLocalError ''columns'')"
    "fst (parse (Parser WARN) 100 lateral_tokens lateral_sql init_state)
             = Inl (UnboundLocalError ''columns'')"
    "fst (parse (Parser IGNORE) 100 lateral_tokens lateral_sql init_state)
             = Inl (UnboundLocalError ''columns'')"
    by code_simp+
  let ?cfg = "Parser RAISE"
  let ?rec = "run ?cfg 100"
  let ?s = "start_chunk lateral_view_tokens ''LATERAL VIEW x tbl''"
  let ?s1 = "snd (match [''LATERAL''] ?s)"
  let ?s2 = "snd (unlessM (match [''VIEW'']) (raise_error ?cfg ''Expected VIEW afteral LATERAL'' None) ?s1)"
  let ?s3 = "snd (match [''OUTER''] ?s2)"
  let ?s4 = "snd (?rec Primary ?s3)"
  let ?s5 = "snd (?rec IdVar ?s4)"
  let ?s6 = "snd (match [''ALIAS''] ?s5)"
  let ?s7 = "snd (expression ?cfg ''Table'' [(''this'', PTok (tk ''VAR'' ''tbl'' 16))] ?s6)"
  have 1: "match [''LATERAL''] ?s = (Inr (PTok (tk ''LATERAL'' ''LATERAL'' 1)), ?s1)"
    by (rule pair_fstI) code_simp
  have 2: "unlessM (match [''VIEW'']) (raise_error ?cfg ''Expected VIEW afteral LATERAL'' None) ?s1
             = (Inr (), ?s2)"
    by (rule pair_fstI) code_simp
  have 3: "match [''OUTER''] ?s2 = (Inr PNone, ?s3)"
    by (rule pair_fstI) code_simp
  have 4: "?rec Primary ?s3 = (Inr (column_node ''x''), ?s4)"
    by (rule pair_fstI) code_simp
  have 5: "?rec IdVar ?s4 = (Inr (PTok (tk ''VAR'' ''tbl'' 16)), ?s5)"
    by (rule pair_fstI) code_simp
  have 6: "match [''ALIAS''] ?s5 = (Inr PNone, ?s6)"
    by (rule pair_fstI) code_simp
  have 7: "expression ?cfg ''Table'' [(''this'', PTok (tk ''VAR'' ''tbl'' 16))] ?s6
             = (Inr (Expression ''Table'' [(''this'', identifier_node ''tbl'')]), ?s7)"
    by (rule pair_fstI) code_simp
  show ?thesis
    using laterals_columns_read_without_alias[OF 1 _ 2 3 4 5 6 _ 7, of "[]" None] p
    by simp
qed

subsection \<open>Parent wiring\<close>

lemma walk_list_iff:
  "V \<in> set (walk_list vs i j k p) \<longleftrightarrow>
     (\<exists>n<length vs. V = Visit (p @ [(i, Some (j + n))]) (Some p) (Some k)
                    \<or> V \<in> set (walk (vs ! n) (p @ [(i, Some (j + n))])))"
proof (induction vs arbitrary: j)
  case Nil
  then show ?case by simp
next
  case (Cons x xs)
  show ?case by (simp add: Cons.IH Ex_less_Suc2 disj_assoc)
qed

lemma walk_items_iff:
  "V \<in> set (walk_items args i p) \<longleftrightarrow> (\<exists>n<length args. item_visits V (args ! n) (i + n) p)"
proof (induction args arbitrary: i)
  case Nil
  then show ?case by simp
next
  case (Cons kv kvs)
  have "V \<in> set (case snd kv of
        PList vs \<Rightarrow> walk_list vs i 0 (fst kv) p
      | v \<Rightarrow> Visit (p @ [(i, None)]) (Some p) (Some (fst kv)) # walk v (p @ [(i, None)]))
      \<longleftrightarrow> item_visits V kv i p"
    by (cases "snd kv") (simp_all add: item_visits_def)
  then show ?case by (simp add: Cons.IH Ex_less_Suc2)
qed

lemma item_visits_list:
  "item_visits V (k, PList vs) i p \<longleftrightarrow> V \<in> set (walk_list vs i 0 k p)"
  by (simp add: item_visits_def)

lemma item_visits_other:
  "(\<And>vs. y \<noteq> PList vs) \<Longrightarrow>
   item_visits V (k, y) i p \<longleftrightarrow>
     V = Visit (p @ [(i, None)]) (Some p) (Some k) \<or> V \<in> set (walk y (p @ [(i, None)]))"
  by (cases y) (auto simp: item_visits_def)

lemma child_list:
  "n < length args \<Longrightarrow> args ! n = (k, PList vs) \<Longrightarrow>
   child (Expression c args) (n, j)
     = (case j of Some m \<Rightarrow> if m < length vs then Some (vs ! m) else None | None \<Rightarrow> None)"
  by (simp add: child_def)

lemma child_other:
  "n < length args \<Longrightarrow> args ! n = (k, y) \<Longrightarrow> (\<And>vs. y \<noteq> PList vs) \<Longrightarrow>
   child (Expression c args) (n, j) = (case j of None \<Rightarrow> Some y | Some m \<Rightarrow> None)"
  by (cases y) (auto simp: child_def)

lemma child_outside:
  "\<not> n < length args \<Longrightarrow> child (Expression c args) (n, j) = None"
  by (simp add: child_def)

lemma slot_key_inside:
  "n < length args \<Longrightarrow> args ! n = (k, y) \<Longrightarrow> slot_key (Expression c args) (n, j) = Some k"
  by (simp add: slot_key_def)

lemma walk_iff:
  "V \<in> set (walk v p) \<longleftrightarrow>
     (\<exists>st x. child v st = Some x
        \<and> (V = Visit (p @ [st]) (Some p) (slot_key v st) \<or> V \<in> set (walk x (p @ [st]))))"
proof (cases v)
  case (Expression c args)
  have "(\<exists>n<length args. item_visits V (args ! n) n p) \<longleftrightarrow>
        (\<exists>st x. child v st = Some x
        \<and> (V = Visit (p @ [st]) (Some p) (slot_key v st) \<or> V \<in> set (walk x (p @ [st]))))"
    (is "?L \<longleftrightarrow> ?R")
  proof
    assume ?L
    then obtain n where n: "n < length args" and iv: "item_visits V (args ! n) n p" by blast
    obtain k y where kv: "args ! n = (k, y)" by (cases "args ! n")
    show ?R
    proof (cases "\<exists>vs. y = PList vs")
      case True
      then obtain vs where y: "y = PList vs" by blast
      from iv obtain m where m: "m < length vs"
        and "V = Visit (p @ [(n, Some m)]) (Some p) (Some k)
             \<or> V \<in> set (walk (vs ! m) (p @ [(n, Some m)]))"
        unfolding kv y item_visits_list walk_list_iff by auto
      then show ?thesis
        using child_list[OF n kv[unfolded y], of c "Some m"] slot_key_inside[OF n kv, of c "Some m"]
        unfolding Expression by (intro exI[of _ "(n, Some m)"] exI[of _ "vs ! m"]) simp
    next
      case False
      then have "V = Visit (p @ [(n, None)]) (Some p) (Some k) \<or> V \<in> set (walk y (p @ [(n, None)]))"
        using iv unfolding kv by (simp add: item_visits_other)
      then show ?thesis
        using child_other[OF n kv, of c None] slot_key_inside[OF n kv, of c None] False
        unfolding Expression by (intro exI[of _ "(n, None)"] exI[of _ y]) simp
    qed
  next
    assume ?R
    then obtain st x where c: "child v st = Some x"
      and V: "V = Visit (p @ [st]) (Some p) (slot_key v st) \<or> V \<in> set (walk x (p @ [st]))"
      by blast
    obtain n j where st: "st = (n, j)" by (cases st)
    have n: "n < length args" using c child_outside[of n args c j] unfolding Expression st by force
    obtain k y where kv: "args ! n = (k, y)" by (cases "args ! n")
    have key: "slot_key v st = Some k" using slot_key_inside[OF n kv] by (simp add: Expression st)
    have "item_visits V (args ! n) n p"
    proof (cases "\<exists>vs. y = PList vs")
      case True
      then obtain vs where y: "y = PList vs" by blast
      from c obtain m where j: "j = Some m" and m: "m < length vs" and x: "x = vs ! m"
        using child_list[OF n kv[unfolded y], of c j] unfolding Expression st
        by (auto split: option.splits if_splits)
      show ?thesis using V m key by (auto simp: kv y item_visits_list walk_list_iff st j x)
    next
      case False
      from c have j: "j = None" and x: "x = y"
        using child_other[OF n kv, of c j] False unfolding Expression st
        by (auto split: option.splits)
      show ?thesis using V False key by (auto simp: kv st j x item_visits_other)
    qed
    then show ?L using n by blast
  qed
  then show ?thesis using Expression by (simp add: walk_items_iff)
qed (simp_all add: child_def)

lemma child_size: "child v st = Some x \<Longrightarrow> size x < size v"
proof (cases v)
  case (Expression c args)
  assume c: "child v st = Some x"
  then have n: "fst st < length args" using Expression by (simp add: child_def split: if_splits)
  obtain k y where kv: "args ! fst st = (k, y)" by (cases "args ! fst st")
  have mem: "(k, y) \<in> set args" using n kv by (metis nth_mem)
  have y: "size y < size v"
    using Expression size_list_estimation'[OF mem, of "size y" "size_prod (\<lambda>_. 0) size"]
    by simp
  show ?thesis
  proof (cases y)
    case (PList vs)
    with c Expression n kv obtain j where j: "j < length vs" and x: "x = vs ! j"
      by (auto simp: child_def split: option.splits if_splits)
    have "size x \<le> size_list size vs"
      using size_list_estimation'[of x vs "size x" size] j x by simp
    then show ?thesis using y PList by simp
  qed (use c Expression n kv y in \<open>auto simp: child_def split: option.splits if_splits\<close>)
qed (simp_all add: child_def)

lemma walk_sound:
  "V \<in> set (walk v p) \<Longrightarrow>
     \<exists>r st h x. v_node V = p @ r @ [st] \<and> v_parent V = Some (p @ r) \<and> node_at v r = Some h
        \<and> child h st = Some x \<and> v_key V = slot_key h st"
proof (induction v arbitrary: p rule: measure_induct_rule[of size])
  case (less v)
  from less.prems obtain st x where c: "child v st = Some x"
    and V: "V = Visit (p @ [st]) (Some p) (slot_key v st) \<or> V \<in> set (walk x (p @ [st]))"
    unfolding walk_iff[of V v p] by blast
  from V show ?case
  proof
    assume "V = Visit (p @ [st]) (Some p) (slot_key v st)"
    then show ?thesis using c by (intro exI[of _ "[]"] exI[of _ st] exI[of _ v] exI[of _ x]) simp
  next
    assume "V \<in> set (walk x (p @ [st]))"
    from less.IH[OF child_size[OF c] this] obtain r st' h x' where
      "v_node V = (p @ [st]) @ r @ [st']" "v_parent V = Some ((p @ [st]) @ r)"
      "node_at x r = Some h" "child h st' = Some x'" "v_key V = slot_key h st'"
      by blast
    then show ?thesis using c
      by (intro exI[of _ "st # r"] exI[of _ st'] exI[of _ h] exI[of _ x']) simp
  qed
qed

lemma walk_complete:
  "node_at v r = Some h \<Longrightarrow> child h st = Some x \<Longrightarrow>
     Visit (p @ r @ [st]) (Some (p @ r)) (slot_key h st) \<in> set (walk v p)"
proof (induction r arbitrary: v p)
  case Nil
  then show ?case unfolding walk_iff[of _ v p] by (intro exI[of _ st] exI[of _ x]) simp
next
  case (Cons s r)
  from Cons.prems(1) obtain c where c: "child v s = Some c" and n: "node_at c r = Some h"
    by (auto split: option.splits)
  from Cons.IH[OF n Cons.prems(2), of "p @ [s]"] c show ?case
    unfolding walk_iff[of _ v p] by (intro exI[of _ s] exI[of _ c]) simp
qed

lemma node_at_snoc:
  "node_at v (r @ [st]) = (case node_at v r of None \<Rightarrow> None | Some h \<Rightarrow> child h st)"
  by (induction r arbitrary: v) (auto split: option.splits)

lemma wire_other: "v_node V \<noteq> q \<Longrightarrow> wire e m V q = m q"
  by (simp add: wire_def)

lemma wire_hit:
  "is_expression (node_at e (v_node V)) \<Longrightarrow> v_parent V \<noteq> None \<Longrightarrow>
   wire e m V (v_node V) = (v_parent V, v_key V)"
  by (simp add: wire_def)

lemma foldl_wire:
  assumes "\<And>V. V \<in> set vs \<Longrightarrow> v_node V = q \<Longrightarrow> V = W"
      and "W \<in> set vs" "v_node W = q" "v_parent W \<noteq> None" "is_expression (node_at e q)"
  shows "foldl (wire e) m vs q = (v_parent W, v_key W)"
  using assms(1,2)
proof (induction vs rule: rev_induct)
  case Nil
  then show ?case by simp
next
  case (snoc V vs)
  show ?case
  proof (cases "v_node V = q")
    case True
    then have "V = W" using snoc.prems(1) by simp
    then show ?thesis using assms(3-5) wire_hit[of e W] by simp
  next
    case False
    then have "W \<in> set vs" using snoc.prems(2) assms(3) by auto
    then have "foldl (wire e) m vs q = (v_parent W, v_key W)"
      using snoc.IH snoc.prems(1) by simp
    then show ?thesis using False by (simp add: wire_other)
  qed
qed

lemma post_pass_child:
  assumes r: "node_at e r = Some h" and c: "child h st = Some x" and x: "is_expression (Some x)"
  shows "post_pass e (r @ [st]) = (Some r, slot_key h st)"
proof -
  let ?W = "Visit (r @ [st]) (Some r) (slot_key h st)"
  let ?vs = "Visit [] None None # walk e []"
  have W: "?W \<in> set ?vs" using walk_complete[OF r c, of "[]"] by simp
  have uniq: "V = ?W" if "V \<in> set ?vs" "v_node V = r @ [st]" for V
  proof -
    from that have "V \<in> set (walk e [])" by auto
    from walk_sound[OF this] obtain r' st' h' x' where
      *: "v_node V = r' @ [st']" "v_parent V = Some r'" "node_at e r' = Some h'"
         "v_key V = slot_key h' st'"
      by auto
    with that(2) have "r' = r" "st' = st" by auto
    with * r show ?thesis by (cases V) simp
  qed
  have "is_expression (node_at e (r @ [st]))" using r c x by (simp add: node_at_snoc)
  from foldl_wire[of ?vs "r @ [st]" ?W e, OF uniq W _ _ this]
  show ?thesis by (simp add: post_pass_def)
qed

lemma distinct_map_of_nth:
  "distinct (map fst xs) \<Longrightarrow> i < length xs \<Longrightarrow> xs ! i = (k, v) \<Longrightarrow> map_of xs k = Some v"
  by (metis map_of_eq_Some_iff nth_mem)

text \<open>
  Claim C3.  In every tree, hence in every statement tree that \<^verbatim>\<open>parse\<close> returns, every
  node other than the root has as \<^verbatim>\<open>parent\<close> the node that holds it and as \<^verbatim>\<open>arg_key\<close>
  the key of the very slot of the parent in which it sits; it is the value of that slot,
  or the element at its own index of the list in that slot.  Where the keys of the parent
  are distinct, as the keys of a dictionary are, the slot is \<^verbatim>\<open>parent.args[arg_key]\<close>.
\<close>

theorem parent_wiring:
  assumes "p \<noteq> []" and "node_at e p = Some (Expression c a)"
  shows "\<exists>h k.
           post_pass e p = (Some (butlast p), Some k)
           \<and> node_at e (butlast p) = Some h
           \<and> slot_key h (last p) = Some k
           \<and> child h (last p) = Some (Expression c a)
           \<and> (\<exists>pc pargs v.
                 h = Expression pc pargs
                 \<and> fst (last p) < length pargs
                 \<and> pargs ! fst (last p) = (k, v)
                 \<and> (case snd (last p) of
                       None \<Rightarrow> v = Expression c a
                     | Some j \<Rightarrow> \<exists>vs. v = PList vs \<and> j < length vs \<and> vs ! j = Expression c a)
                 \<and> (distinct (map fst pargs) \<longrightarrow> map_of pargs k = Some v))"
proof -
  from assms(1) obtain r st where p: "p = r @ [st]" by (metis rev_exhaust)
  from assms(2) obtain h where h: "node_at e r = Some h" and ch: "child h st = Some (Expression c a)"
    unfolding p node_at_snoc by (auto split: option.splits)
  from ch obtain pc pargs where hh: "h = Expression pc pargs"
    by (cases h) (simp_all add: child_def)
  from ch hh have n: "fst st < length pargs" by (simp add: child_def split: if_splits)
  obtain k v where kv: "pargs ! fst st = (k, v)" by (cases "pargs ! fst st")
  have key: "slot_key h st = Some k" using hh n kv by (simp add: slot_key_def)
  have val: "case snd st of
               None \<Rightarrow> v = Expression c a
             | Some j \<Rightarrow> \<exists>vs. v = PList vs \<and> j < length vs \<and> vs ! j = Expression c a"
    using ch hh n kv by (cases v) (auto simp: child_def split: option.splits if_splits)
  have dict: "distinct (map fst pargs) \<longrightarrow> map_of pargs k = Some v"
    using distinct_map_of_nth[OF _ n kv] by simp
  have pp: "post_pass e p = (Some r, Some k)"
    using post_pass_child[OF h ch] key by (simp add: p is_expression_def)
  show ?thesis
    using pp h key ch hh n kv val dict unfolding p
    by (intro exI[of _ h] exI[of _ k]) simp
qed

text \<open>
  Claim C3, witness: in the tree of \<^verbatim>\<open>a = a\<close> the two operands are equal nodes; the left
  one gets the key \<^verbatim>\<open>this\<close> and the right one the key \<^verbatim>\<open>expression\<close>.  In the tree of
  the statement of claim C4, the literal \<^verbatim>\<open>2\<close> of the \<^verbatim>\<open>IN\<close> list has the \<^verbatim>\<open>In\<close> node as
  parent and \<^verbatim>\<open>expressions\<close> as key.
\<close>

theorem parent_wiring_witness:
  "fst (parse (Parser RAISE) 100 eq_tokens ''a = a'' init_state) = Inr [eq_tree]
   \<and> node_at eq_tree [(0, None)] = Some (column_node ''a'')
   \<and> node_at eq_tree [(1, None)] = Some (column_node ''a'')
   \<and> post_pass eq_tree [(0, None)] = (Some [], Some ''this'')
   \<and> post_pass eq_tree [(1, None)] = (Some [], Some ''expression'')
   \<and> node_at between_in_tree in_list_second = Some (number_node ''2'')
   \<and> post_pass between_in_tree in_list_second
       = (Some [(6, None), (0, None), (1, None)], Some ''expressions'')
   \<and> (\<exists>h. node_at eq_tree [] = Some h
          \<and> slot_key h (1, None) = Some ''expression''
          \<and> child h (1, None) = Some (column_node ''a''))"
proof -
  have e: "fst (parse (Parser RAISE) 100 eq_tokens ''a = a'' init_state) = Inr [eq_tree]"
    by code_simp
  have n0: "node_at eq_tree [(0, None)] = Some (column_node ''a'')" by code_simp
  have n1: "node_at eq_tree [(1, None)]
              = Some (Expression ''Column''
                  [(''this'', identifier_node ''a''), (''db'', PNone), (''table'', PNone),
                   (''fields'', PNone)])"
    by code_simp
  have w0: "post_pass eq_tree [(0, None)] = (Some [], Some ''this'')" by code_simp
  have w1: "post_pass eq_tree [(1, None)] = (Some [], Some ''expression'')" by code_simp
  have n2: "node_at between_in_tree in_list_second = Some (number_node ''2'')" by code_simp
  have w2: "post_pass between_in_tree in_list_second
              = (Some [(6, None), (0, None), (1, None)], Some ''expressions'')"
    by code_simp
  from parent_wiring[OF _ n1] obtain h k where
    "post_pass eq_tree [(1, None)] = (Some [], Some k)" "node_at eq_tree [] = Some h"
    "slot_key h (1, None) = Some k"
    "child h (1, None) = Some (Expression ''Column''
                  [(''this'', identifier_node ''a''), (''db'', PNone), (''table'', PNone),
                   (''fields'', PNone)])"
    by auto
  with w1 have "\<exists>h. node_at eq_tree [] = Some h
          \<and> slot_key h (1, None) = Some ''expression''
          \<and> child h (1, None) = Some (column_node ''a'')"
    by (auto simp: column_node_def)
  with e n0 n1 w0 w1 n2 w2 show ?thesis by (simp add: column_node_def)
qed

end
